theory Spec2Isabelle
  imports Complex_Main
begin

section \<open>Configuration\<close>

text \<open>
  The constants of \<^verbatim>\<open>CONFIG\<close> that the decision and execution engine reads
  (\<^verbatim>\<open>CONFIG.goalSystem\<close>, \<^verbatim>\<open>CONFIG.intelligence\<close>, \<^verbatim>\<open>CONFIG.actionSync\<close>,
  \<^verbatim>\<open>CONFIG.autoMode\<close>, \<^verbatim>\<open>CONFIG.actionHistory\<close>), with the values of the source.
  \<^verbatim>\<open>CONFIG.intelligence.explorationDistance\<close> enters the floating-point computation
  of the relocation target only, which is an input of the model.
\<close>

definition tickInterval :: int where "tickInterval = 100"
definition maxActiveGoals :: nat where "maxActiveGoals = 3"
definition goalPersistence :: int where "goalPersistence = 30000"

definition behavioralOverrides :: bool where "behavioralOverrides = True"
definition stuckDetectionThreshold :: nat where "stuckDetectionThreshold = 3"
definition proximityMiningDistance :: int where "proximityMiningDistance = 3"
definition proactiveActions :: bool where "proactiveActions = True"
definition memoryDepth :: nat where "memoryDepth = 50"

definition actionSync_enabled :: bool where "actionSync_enabled = True"
definition maxActions :: nat where "maxActions = 1000"
definition maxHistory :: nat where "maxHistory = 15"

section \<open>Values shared by the subsystems\<close>

text \<open>
  A thrown value: an \<^verbatim>\<open>Error\<close> object, identified by its message; one of \<^verbatim>\<open>null\<close>
  and \<^verbatim>\<open>undefined\<close>, which a promise can also be rejected with, and reading
  \<^verbatim>\<open>.message\<close> of which raises a \<^verbatim>\<open>TypeError\<close>; or any other value, whose
  \<^verbatim>\<open>.message\<close> is \<^verbatim>\<open>undefined\<close>.
\<close>

datatype error = Error string | NullOrUndefined | OtherValue

text \<open>
  The \<^verbatim>\<open>TypeError\<close> of such a reading. Its message names the value and the property;
  one message stands for all of them here.
\<close>

definition typeError :: error where
  "typeError = Error ''TypeError: Cannot read properties of null or undefined''"

text \<open>A \<^verbatim>\<open>Vec3\<close>, with rational coordinates (every double is a rational).\<close>

type_synonym vec3 = "rat \<times> rat \<times> rat"

definition offset :: "vec3 \<Rightarrow> rat \<Rightarrow> rat \<Rightarrow> rat \<Rightarrow> vec3" where
  "offset p dx dy dz = (case p of (x, y, z) \<Rightarrow> (x + dx, y + dy, z + dz))"

text \<open>\<^verbatim>\<open>String.prototype.includes\<close>.\<close>

fun str_includes :: "string \<Rightarrow> string \<Rightarrow> bool" where
  "str_includes [] sub = (sub = [])"
| "str_includes (c # cs) sub = (take (length sub) (c # cs) = sub \<or> str_includes cs sub)"

text \<open>
  \<^verbatim>\<open>GoalSelector.sensorData\<close>, as \<^verbatim>\<open>updateSensors\<close> fills it. Of each tree and ore
  entry the goals read the position only.
\<close>

record inventorySummary =
  wood :: nat
  stone :: nat
  food :: nat
  tools :: nat
  totalItems :: nat

record mobInfo =
  mobType :: string
  mobDistance :: rat
  isHostile :: bool

record sensors =
  nearbyMobs :: "mobInfo list"
  trees :: "vec3 list"
  ores :: "vec3 list"
  inventory :: inventorySummary
  health :: rat
  hunger :: rat

text \<open>
  The bot handle as one synchronous call sees it. World sensing and actuation are
  collaborators of the engine: what they report and whether an actuation call throws
  are inputs of the model.
  \<^item> \<open>entity\<close>: whether \<^verbatim>\<open>bot.entity\<close> is set; \<open>position\<close> is
    \<^verbatim>\<open>bot.entity.position\<close> when it is. The timer that calls the scheduler checks it
    before each tick, so the scheduler and the goals run with the entity set;
  \<^item> \<open>distanceTo\<close>: the number that \<^verbatim>\<open>bot.entity.position.distanceTo\<close> returns for a
    point, as the floating-point computation rounds it;
  \<^item> \<open>sensed\<close>: the sensor data that \<^verbatim>\<open>GoalSelector.updateSensors\<close> computes from
    the bot now;
  \<^item> \<open>blockName\<close>: the name of the block at integer coordinates, \<open>None\<close> where
    \<^verbatim>\<open>bot.blockAt\<close> returns null;
  \<^item> \<open>attackError\<close>, \<open>setGoalError\<close>: the error, if any, that \<^verbatim>\<open>bot.attack\<close> and
    \<^verbatim>\<open>bot.pathfinder.setGoal\<close> with a goal throw when called now;
  \<^item> \<open>exploreTarget\<close>: the point that \<^verbatim>\<open>ExploreGoal.generateExploreTarget\<close> draws
    with \<^verbatim>\<open>Math.random\<close>;
  \<^item> \<open>relocation\<close>: the pair \<^verbatim>\<open>(Math.round(targetX), Math.round(targetZ))\<close> that
    \<^verbatim>\<open>getIntelligentOverride\<close> computes from \<^verbatim>\<open>Math.random\<close>, the position and the
    exploration distance.
\<close>

record bot =
  entity :: bool
  position :: vec3
  distanceTo :: "vec3 \<Rightarrow> rat"
  sensed :: sensors
  timeOfDay :: int
  blockName :: "int \<times> int \<times> int \<Rightarrow> string option"
  pathfinder :: bool
  attackError :: "error option"
  setGoalError :: "error option"
  exploreTarget :: vec3
  relocation :: "int \<times> int"

text \<open>\<^verbatim>\<open>bot.blockAt(pos)\<close> looks the block up at the floored coordinates.\<close>

definition blockAt :: "bot \<Rightarrow> vec3 \<Rightarrow> string option" where
  "blockAt b p = (case p of (x, y, z) \<Rightarrow> blockName b (\<lfloor>x\<rfloor>, \<lfloor>y\<rfloor>, \<lfloor>z\<rfloor>))"

section \<open>Goals\<close>

text \<open>
  The fields that the subclasses of \<^verbatim>\<open>Goal\<close> add, one constructor per class;
  \<open>GenericGoal\<close> is the base class itself.
\<close>

datatype phase = planning | foundation | walls | roof | complete

datatype goalClass =
    GenericGoal
  | MineTreeGoal (targetTree: "vec3 option") (pathStarted: bool)
      (failureCount: nat) (lastFailureTime: int)
  | SurvivalGoal
  | ExploreGoal (isMoving: bool)
  | BuildShelterGoal (shelterLocation: "vec3 option") (buildingPhase: phase)

record goal =
  priority :: int
  name :: string
  isActive :: bool
  startTime :: "int option"
  lastTickTime :: "int option"
  targetPosition :: "vec3 option"
  cls :: goalClass

text \<open>The constructors: \<^verbatim>\<open>Goal(bot, priority, name)\<close> and the four subclasses.\<close>

definition Goal :: "int \<Rightarrow> string \<Rightarrow> goal" where
  "Goal p n =
     \<lparr>priority = p, name = n, isActive = False, startTime = None, lastTickTime = None,
      targetPosition = None, cls = GenericGoal\<rparr>"

definition newMineTreeGoal :: goal where
  "newMineTreeGoal = (Goal 3 ''MineTreeGoal'')\<lparr>cls := MineTreeGoal None False 0 0\<rparr>"

definition newSurvivalGoal :: goal where
  "newSurvivalGoal = (Goal 10 ''SurvivalGoal'')\<lparr>cls := SurvivalGoal\<rparr>"

definition newExploreGoal :: goal where
  "newExploreGoal = (Goal 1 ''ExploreGoal'')\<lparr>cls := ExploreGoal False\<rparr>"

definition newBuildShelterGoal :: goal where
  "newBuildShelterGoal = (Goal 2 ''BuildShelterGoal'')\<lparr>cls := BuildShelterGoal None planning\<rparr>"

subsection \<open>The base class\<close>

definition Goal_canContinue :: "goal \<Rightarrow> bool" where
  "Goal_canContinue g = isActive g"

definition Goal_start :: "int \<Rightarrow> goal \<Rightarrow> goal" where
  "Goal_start now g = g\<lparr>isActive := True, startTime := Some now\<rparr>"

definition Goal_stop :: "goal \<Rightarrow> goal" where
  "Goal_stop g = g\<lparr>isActive := False, startTime := None\<rparr>"

definition Goal_tick :: "int \<Rightarrow> goal \<Rightarrow> goal" where
  "Goal_tick now g = (if \<not> isActive g then g else g\<lparr>lastTickTime := Some now\<rparr>)"

text \<open>
  \<^verbatim>\<open>hasTimedOut\<close>; no subclass overrides it. \<^verbatim>\<open>!this.startTime\<close> holds of null and
  of the number 0.
\<close>

definition hasTimedOut :: "int \<Rightarrow> goal \<Rightarrow> bool" where
  "hasTimedOut now g =
     (case startTime g of
        None \<Rightarrow> False
      | Some t \<Rightarrow> if t = 0 then False else now - t > goalPersistence)"

subsection \<open>The methods, with the overrides of the subclasses\<close>

definition hostileMobs :: "sensors \<Rightarrow> mobInfo list" where
  "hostileMobs sd = filter isHostile (nearbyMobs sd)"

definition isNight :: "bot \<Rightarrow> bool" where
  "isNight b = (timeOfDay b > 13000 \<and> timeOfDay b < 23000)"

text \<open>\<^verbatim>\<open>MineTreeGoal.isTreeBlock\<close> on the result of \<^verbatim>\<open>blockAt\<close>.\<close>

definition goalIsTreeBlock :: "string option \<Rightarrow> bool" where
  "goalIsTreeBlock blk =
     (case blk of None \<Rightarrow> False | Some n \<Rightarrow> str_includes n ''log'' \<or> str_includes n ''wood'')"

definition canUse :: "bot \<Rightarrow> sensors \<Rightarrow> int \<Rightarrow> goal \<Rightarrow> bool" where
  "canUse b sd now g =
     (case cls g of
        GenericGoal \<Rightarrow> False
      | MineTreeGoal tt ps fc lft \<Rightarrow>
          if length (trees sd) = 0 then False
          else if fc \<ge> 3 \<and> now - lft < 30000 then False
          else wood (inventory sd) < 10
      | SurvivalGoal \<Rightarrow>
          health sd < 10 \<or> hunger sd < 6 \<or> length (hostileMobs sd) > 0
      | ExploreGoal mv \<Rightarrow>
          length (trees sd) = 0 \<and> length (ores sd) = 0 \<and> totalItems (inventory sd) < 20
      | BuildShelterGoal loc ph \<Rightarrow>
          (isNight b \<or> length (hostileMobs sd) > 0)
          \<and> wood (inventory sd) \<ge> 10 \<and> stone (inventory sd) \<ge> 5)"

definition canContinue :: "bot \<Rightarrow> sensors \<Rightarrow> int \<Rightarrow> goal \<Rightarrow> bool" where
  "canContinue b sd now g =
     (case cls g of
        MineTreeGoal tt ps fc lft \<Rightarrow>
          isActive g \<and>
          (case tt of None \<Rightarrow> False
           | Some p \<Rightarrow> blockAt b p \<noteq> None \<and> goalIsTreeBlock (blockAt b p))
      | SurvivalGoal \<Rightarrow> canUse b sd now g
      | _ \<Rightarrow> Goal_canContinue g)"

definition getDynamicPriority :: "bot \<Rightarrow> sensors \<Rightarrow> goal \<Rightarrow> int" where
  "getDynamicPriority b sd g =
     (case cls g of
        MineTreeGoal tt ps fc lft \<Rightarrow>
          if wood (inventory sd) = 0 \<and> length (trees sd) > 0 then 5
          else if wood (inventory sd) < 5 \<and> length (trees sd) > 0 then 4
          else priority g
      | BuildShelterGoal loc ph \<Rightarrow>
          if isNight b \<and> length (hostileMobs sd) > 0 then 8
          else if isNight b \<or> length (hostileMobs sd) > 0 then 5
          else priority g
      | _ \<Rightarrow> priority g)"

text \<open>
  \<^verbatim>\<open>start\<close>: every override calls \<^verbatim>\<open>super.start()\<close> first. \<^verbatim>\<open>trees[0]\<close> of an
  empty array is undefined.
\<close>

definition start :: "bot \<Rightarrow> sensors \<Rightarrow> int \<Rightarrow> goal \<Rightarrow> goal" where
  "start b sd now g =
     (let g' = Goal_start now g in
      case cls g' of
        MineTreeGoal tt ps fc lft \<Rightarrow>
          g'\<lparr>cls := MineTreeGoal (case trees sd of [] \<Rightarrow> None | t # _ \<Rightarrow> Some t) False fc lft\<rparr>
      | ExploreGoal mv \<Rightarrow> g'\<lparr>targetPosition := Some (exploreTarget b)\<rparr>
      | BuildShelterGoal loc ph \<Rightarrow>
          g'\<lparr>cls := BuildShelterGoal (Some (offset (position b) 5 0 5)) ph\<rparr>
      | _ \<Rightarrow> g')"

text \<open>
  \<^verbatim>\<open>stop\<close>: \<^verbatim>\<open>MineTreeGoal.stop\<close> calls \<^verbatim>\<open>super.stop()\<close> and then clears the
  pathfinder's goal, which changes no field of the goal. The checks, \<^verbatim>\<open>start\<close> and
  \<^verbatim>\<open>stop\<close> read the sensors and the bot and write fields; they are taken not to
  throw. Only \<^verbatim>\<open>tick\<close>, which acts through the bot, can.
\<close>

definition stop :: "goal \<Rightarrow> goal" where
  "stop g = Goal_stop g"

text \<open>
  \<^verbatim>\<open>tick\<close>, up to the point where the call returns to the scheduler. The result is
  the goal as the call leaves it and the error the call throws, if any: what the body
  has written before a throw stays written.
  \<^item> \<^verbatim>\<open>SurvivalGoal.tick\<close> calls \<^verbatim>\<open>bot.attack\<close> (a mob closer than 3) or
    \<^verbatim>\<open>bot.pathfinder.setGoal\<close> (\<^verbatim>\<open>fleeFromDanger\<close>) outside any \<^verbatim>\<open>try\<close>.
  \<^item> \<^verbatim>\<open>ExploreGoal.moveToTarget\<close> and \<^verbatim>\<open>MineTreeGoal.pathToTree\<close> wrap
    \<^verbatim>\<open>setGoal\<close> in \<^verbatim>\<open>try\<close>/\<^verbatim>\<open>catch\<close>: on an error the flag is not set.
  \<^item> \<^verbatim>\<open>MineTreeGoal.tick\<close> is an \<^verbatim>\<open>async\<close> function: the call returns a promise and
    never throws. Within reach of the tree it awaits \<^verbatim>\<open>mineTree()\<close>; the code after
    the \<^verbatim>\<open>await\<close> runs when that promise settles and is \<open>MineTreeGoal_settled\<close>.
\<close>

definition fleeFromDanger :: "bot \<Rightarrow> sensors \<Rightarrow> error option" where
  "fleeFromDanger b sd =
     (if length (hostileMobs sd) = 0 then None
      else if pathfinder b then setGoalError b else None)"

definition handleCombat :: "bot \<Rightarrow> sensors \<Rightarrow> mobInfo list \<Rightarrow> error option" where
  "handleCombat b sd close =
     (case close of
        [] \<Rightarrow> None
      | nearest # _ \<Rightarrow> if mobDistance nearest < 3 then attackError b else fleeFromDanger b sd)"

definition moveToTarget :: "bot \<Rightarrow> goal \<Rightarrow> goal" where
  "moveToTarget b g =
     (if \<not> pathfinder b \<or> targetPosition g = None then g
      else if setGoalError b = None then g\<lparr>cls := ExploreGoal True\<rparr> else g)"

definition pathToTree :: "bot \<Rightarrow> goal \<Rightarrow> goal" where
  "pathToTree b g =
     (if \<not> pathfinder b then g
      else if setGoalError b = None
      then g\<lparr>cls := MineTreeGoal (targetTree (cls g)) True (failureCount (cls g))
                   (lastFailureTime (cls g))\<rparr>
      else g)"

definition tick :: "bot \<Rightarrow> sensors \<Rightarrow> int \<Rightarrow> goal \<Rightarrow> goal \<times> error option" where
  "tick b sd now g =
     (let g' = Goal_tick now g in
      case cls g' of
        GenericGoal \<Rightarrow> (g', None)
      | MineTreeGoal tt ps fc lft \<Rightarrow>
          (case tt of
             None \<Rightarrow> (g', None)
           | Some p \<Rightarrow>
               if distanceTo b p \<le> 4 then (g', None)
               else if \<not> ps then (pathToTree b g', None)
               else (g', None))
      | SurvivalGoal \<Rightarrow>
          (let close = filter (\<lambda>m. isHostile m \<and> mobDistance m < 8) (nearbyMobs sd) in
           if length close > 0 then (g', handleCombat b sd close)
           else (g', None))
      | ExploreGoal mv \<Rightarrow>
          (let g1 = (if \<not> mv \<and> targetPosition g' \<noteq> None then moveToTarget b g' else g') in
           case targetPosition g1 of
             None \<Rightarrow> (g1, None)
           | Some t \<Rightarrow> if distanceTo b t < 3 then (stop g1, None) else (g1, None))
      | BuildShelterGoal loc ph \<Rightarrow>
          (case ph of
             planning \<Rightarrow> (g'\<lparr>cls := BuildShelterGoal loc foundation\<rparr>, None)
           | foundation \<Rightarrow> (g'\<lparr>cls := BuildShelterGoal loc walls\<rparr>, None)
           | walls \<Rightarrow> (g'\<lparr>cls := BuildShelterGoal loc roof\<rparr>, None)
           | roof \<Rightarrow> (stop (g'\<lparr>cls := BuildShelterGoal loc complete\<rparr>), None)
           | complete \<Rightarrow> (g', None)))"

text \<open>
  The rest of \<^verbatim>\<open>MineTreeGoal.tick\<close>, run when the promise of \<^verbatim>\<open>mineTree()\<close> settles;
  \<open>outcome\<close> is the value it rejects with, if it rejects. When it resolves the failure
  count is reset and the goal stops itself; when it rejects the \<^verbatim>\<open>catch\<close> block logs
  \<^verbatim>\<open>error.message\<close>, counts and times the failure and stops the goal. Reading the
  message of null or undefined raises a \<^verbatim>\<open>TypeError\<close> in the \<^verbatim>\<open>catch\<close> block, which
  rejects the promise of \<^verbatim>\<open>tick\<close> and leaves the goal as it is. \<^verbatim>\<open>mineTree\<close> catches
  the errors of its digs itself and resolves, so a dig that fails does not make the
  promise reject.
\<close>

definition MineTreeGoal_settled :: "int \<Rightarrow> error option \<Rightarrow> goal \<Rightarrow> goal" where
  "MineTreeGoal_settled now outcome g =
     (case cls g of
        MineTreeGoal tt ps fc lft \<Rightarrow>
          (case outcome of
             None \<Rightarrow> stop (g\<lparr>cls := MineTreeGoal tt ps 0 lft\<rparr>)
           | Some NullOrUndefined \<Rightarrow> g
           | Some e \<Rightarrow> stop (g\<lparr>cls := MineTreeGoal tt ps (fc + 1) now\<rparr>))
      | _ \<Rightarrow> g)"

section \<open>The goal scheduler\<close>

text \<open>
  Goals are objects: the registry and the active set hold references to them, and a
  goal that is stopped through one array is stopped for the other. \<open>objects\<close> is the
  store, from references to the goals they point to.
\<close>

type_synonym ref = nat

record goalSelector =
  goals :: "ref list"
  activeGoals :: "ref list"
  selectorLastTickTime :: int
  sensorData :: sensors
  objects :: "ref \<Rightarrow> goal"

text \<open>
  The constructor. The source starts \<^verbatim>\<open>sensorData\<close> with empty arrays and objects;
  the counts that are undefined there are 0 here, and compare the same way in
  \<^verbatim>\<open>getDynamicPriority\<close>.
\<close>

definition GoalSelector :: "(ref \<Rightarrow> goal) \<Rightarrow> goalSelector" where
  "GoalSelector h =
     \<lparr>goals = [], activeGoals = [], selectorLastTickTime = 0,
      sensorData = \<lparr>nearbyMobs = [], trees = [], ores = [],
        inventory = \<lparr>wood = 0, stone = 0, food = 0, tools = 0, totalItems = 0\<rparr>,
        health = 20, hunger = 20\<rparr>,
      objects = h\<rparr>"

text \<open>
  \<^verbatim>\<open>sort((a, b) => b.getDynamicPriority() - a.getDynamicPriority())\<close>: a stable sort,
  highest priority first.
\<close>

definition sortByPriority :: "bot \<Rightarrow> sensors \<Rightarrow> (ref \<Rightarrow> goal) \<Rightarrow> ref list \<Rightarrow> ref list" where
  "sortByPriority b sd h rs = sort_key (\<lambda>r. - getDynamicPriority b sd (h r)) rs"

definition addGoal :: "bot \<Rightarrow> ref \<Rightarrow> goalSelector \<Rightarrow> goalSelector" where
  "addGoal b r s = s\<lparr>goals := sortByPriority b (sensorData s) (objects s) (goals s @ [r])\<rparr>"

definition removeGoal :: "string \<Rightarrow> goalSelector \<Rightarrow> goalSelector" where
  "removeGoal goalName s =
     s\<lparr>goals := filter (\<lambda>r. name (objects s r) \<noteq> goalName) (goals s),
       activeGoals := filter (\<lambda>r. name (objects s r) \<noteq> goalName) (activeGoals s)\<rparr>"

text \<open>
  The first pass of \<^verbatim>\<open>tick\<close>: the \<^verbatim>\<open>filter\<close> over the active set, which stops
  every goal it drops.
\<close>

fun removeFinished ::
  "bot \<Rightarrow> sensors \<Rightarrow> int \<Rightarrow> ref list \<Rightarrow> (ref \<Rightarrow> goal) \<Rightarrow> ref list \<times> (ref \<Rightarrow> goal)" where
  "removeFinished b sd now [] h = ([], h)"
| "removeFinished b sd now (r # rs) h =
     (if hasTimedOut now (h r) \<or> \<not> canContinue b sd now (h r)
      then removeFinished b sd now rs (h(r := stop (h r)))
      else (case removeFinished b sd now rs h of (keep, h') \<Rightarrow> (r # keep, h')))"

definition availableGoals ::
  "bot \<Rightarrow> sensors \<Rightarrow> int \<Rightarrow> ref list \<Rightarrow> ref list \<Rightarrow> (ref \<Rightarrow> goal) \<Rightarrow> ref list" where
  "availableGoals b sd now registry active h =
     sortByPriority b sd h (filter (\<lambda>r. r \<notin> set active \<and> canUse b sd now (h r)) registry)"

text \<open>
  The \<^verbatim>\<open>while\<close> loop: while the active set is below its capacity and a candidate is
  left, the first candidate is started and pushed.
\<close>

fun activate ::
  "bot \<Rightarrow> sensors \<Rightarrow> int \<Rightarrow> ref list \<Rightarrow> ref list \<Rightarrow> (ref \<Rightarrow> goal) \<Rightarrow> ref list \<times> (ref \<Rightarrow> goal)" where
  "activate b sd now [] active h = (active, h)"
| "activate b sd now (r # rs) active h =
     (if length active < maxActiveGoals
      then activate b sd now rs (active @ [r]) (h(r := start b sd now (h r)))
      else (active, h))"

text \<open>
  \<^verbatim>\<open>this.activeGoals.forEach(goal => goal.tick())\<close>. There is no handler around the
  call: an error thrown by one goal's tick ends the loop and leaves \<^verbatim>\<open>forEach\<close>.
\<close>

fun tickAll ::
  "bot \<Rightarrow> sensors \<Rightarrow> int \<Rightarrow> ref list \<Rightarrow> (ref \<Rightarrow> goal) \<Rightarrow> (ref \<Rightarrow> goal) \<times> error option" where
  "tickAll b sd now [] h = (h, None)"
| "tickAll b sd now (r # rs) h =
     (case tick b sd now (h r) of
        (g', Some e) \<Rightarrow> (h(r := g'), Some e)
      | (g', None) \<Rightarrow> tickAll b sd now rs (h(r := g')))"

text \<open>
  \<^verbatim>\<open>GoalSelector.tick\<close>. \<open>now\<close> is the reading of \<^verbatim>\<open>Date.now()\<close> during the call, and
  \<open>sensed b\<close> is what \<^verbatim>\<open>updateSensors\<close> stores. \<open>selectGoals\<close> is the body up to the
  last statement: the sensors are refreshed, finished goals are removed and new goals
  are activated. The last statement ticks the active goals. The result is the selector
  after the call and the error the call throws, if any.
\<close>

definition selectGoals :: "bot \<Rightarrow> int \<Rightarrow> goalSelector \<Rightarrow> goalSelector" where
  "selectGoals b now s =
     (let sd = sensed b;
          (keep, h1) = removeFinished b sd now (activeGoals s) (objects s);
          candidates = availableGoals b sd now (goals s) keep h1;
          (active, h2) = activate b sd now candidates keep h1
      in s\<lparr>selectorLastTickTime := now, sensorData := sd, activeGoals := active,
            objects := h2\<rparr>)"

definition GoalSelector_tick ::
  "bot \<Rightarrow> int \<Rightarrow> goalSelector \<Rightarrow> goalSelector \<times> error option" where
  "GoalSelector_tick b now s =
     (if now - selectorLastTickTime s < tickInterval then (s, None)
      else
        let s1 = selectGoals b now s;
            (h3, err) = tickAll b (sensorData s1) now (activeGoals s1) (objects s1)
        in (s1\<lparr>objects := h3\<rparr>, err))"

text \<open>
  \<^verbatim>\<open>initializeGoalSystem\<close>: a new selector and the four goals, added in the order of
  the source.
\<close>

definition initialObjects :: "ref \<Rightarrow> goal" where
  "initialObjects =
     (\<lambda>r. Goal 1 ''GenericGoal'')
       (0 := newSurvivalGoal, 1 := newMineTreeGoal, 2 := newBuildShelterGoal,
        3 := newExploreGoal)"

definition initializeGoalSystem :: "bot \<Rightarrow> goalSelector" where
  "initializeGoalSystem b =
     addGoal b 3 (addGoal b 2 (addGoal b 1 (addGoal b 0 (GoalSelector initialObjects))))"

text \<open>
  The states the scheduler can be in: built by the constructor and changed by its own
  methods, by \<^verbatim>\<open>LLMGoalValidator.applyLLMRecommendations\<close> (which re-sorts the
  registry) and by whatever code writes to the goal objects between two calls (the
  settling of a mining promise, a priority adjustment).
\<close>

inductive reachable :: "goalSelector \<Rightarrow> bool" where
  r_new: "reachable (GoalSelector h)"
| r_addGoal: "reachable s \<Longrightarrow> reachable (addGoal b r s)"
| r_removeGoal: "reachable s \<Longrightarrow> reachable (removeGoal n s)"
| r_tick: "reachable s \<Longrightarrow> reachable (fst (GoalSelector_tick b now s))"
| r_resort: "reachable s \<Longrightarrow>
     reachable (s\<lparr>goals := sortByPriority b (sensorData s) (objects s) (goals s)\<rparr>)"
| r_objects: "reachable s \<Longrightarrow> reachable (s\<lparr>objects := h\<rparr>)"

section \<open>Actions and their validation\<close>

text \<open>A value produced by \<^verbatim>\<open>JSON.parse\<close>; an object is the list of its entries.\<close>

datatype json =
    JNull | JBool bool | JNum rat | JStr string | JArr "json list"
  | JObj "(string \<times> json) list"

text \<open>
  \<^verbatim>\<open>ACTION_JSON_SCHEMA\<close> as \<^verbatim>\<open>ajv\<close> compiles it: the value is an object; it has
  the property \<^verbatim>\<open>action\<close>, a string of the enumeration; it has no property besides
  \<^verbatim>\<open>action\<close>, \<^verbatim>\<open>horizon_ms\<close> and \<^verbatim>\<open>args\<close>; \<^verbatim>\<open>horizon_ms\<close>, when present, is a
  number with an integral value between 100 and 5000; \<^verbatim>\<open>args\<close>, when present, is an
  object, with any properties.
\<close>

definition actionEnum :: "string list" where
  "actionEnum =
     [''MOVE'', ''LOOK_AT'', ''GOTO'', ''MINE_AT'', ''MINE_TREE'', ''PLACE_AT'',
      ''ATTACK_NEAREST'', ''SELECT_HOTBAR'', ''EAT'', ''CRAFT'']"

definition validateAction :: "json \<Rightarrow> bool" where
  "validateAction j =
     (case j of
        JObj kv \<Rightarrow>
          (case map_of kv ''action'' of
             Some (JStr a) \<Rightarrow> a \<in> set actionEnum
           | _ \<Rightarrow> False)
          \<and> list_all (\<lambda>(k, v). k \<in> set [''action'', ''horizon_ms'', ''args'']) kv
          \<and> (case map_of kv ''horizon_ms'' of
                None \<Rightarrow> True
              | Some (JNum n) \<Rightarrow> of_int \<lfloor>n\<rfloor> = n \<and> 100 \<le> n \<and> n \<le> 5000
              | Some _ \<Rightarrow> False)
          \<and> (case map_of kv ''args'' of
                None \<Rightarrow> True
              | Some (JObj _) \<Rightarrow> True
              | Some _ \<Rightarrow> False)
      | _ \<Rightarrow> False)"

text \<open>
  An action object as the engine handles it: the objects that pass \<^verbatim>\<open>validateAction\<close>
  and the literals that \<^verbatim>\<open>getIntelligentOverride\<close> builds have the properties
  \<^verbatim>\<open>action\<close>, \<^verbatim>\<open>args\<close> and \<^verbatim>\<open>horizon_ms\<close> and no other; \<open>None\<close> is an absent
  property. \<open>asAction\<close> reads a validated value as such an object.
\<close>

record actionObj =
  action :: string
  args :: "(string \<times> json) list option"
  horizon_ms :: "int option"

definition asAction :: "json \<Rightarrow> actionObj" where
  "asAction j =
     (case j of
        JObj kv \<Rightarrow>
          \<lparr>action = (case map_of kv ''action'' of Some (JStr a) \<Rightarrow> a | _ \<Rightarrow> []),
           args = (case map_of kv ''args'' of Some (JObj m) \<Rightarrow> Some m | _ \<Rightarrow> None),
           horizon_ms = (case map_of kv ''horizon_ms'' of Some (JNum n) \<Rightarrow> Some \<lfloor>n\<rfloor> | _ \<Rightarrow> None)\<rparr>
      | _ \<Rightarrow> \<lparr>action = [], args = None, horizon_ms = None\<rparr>)"

section \<open>Behavioral memory\<close>

record memoryEntry =
  key :: string
  timestamp :: int
  recorded :: actionObj

record contextRec =
  stuckCount :: nat
  lastOverrideTime :: int

record flagsRec =
  isStuck :: bool
  shouldOverride :: bool
  isExploring :: bool
  isMining :: bool

record intelligence =
  actionMemory :: "memoryEntry list"
  lastPositions :: "(vec3 \<times> int) list"
  consecutiveActions :: "string \<rightharpoonup> nat"
  lastLLMDecision :: "actionObj option"
  contextState :: contextRec
  behaviorFlags :: flagsRec

definition initialIntelligence :: intelligence where
  "initialIntelligence =
     \<lparr>actionMemory = [], lastPositions = [], consecutiveActions = Map.empty,
      lastLLMDecision = None,
      contextState = \<lparr>stuckCount = 0, lastOverrideTime = 0\<rparr>,
      behaviorFlags = \<lparr>isStuck = False, shouldOverride = False, isExploring = False,
        isMining = False\<rparr>\<rparr>"

text \<open>
  The signature under which an action is recorded, the template
  \<^verbatim>\<open>`${action.type}_${JSON.stringify(action.parameters || {})}`\<close>. An action object has
  no property \<^verbatim>\<open>type\<close> and no property \<^verbatim>\<open>parameters\<close>: the first part is the text
  of \<^verbatim>\<open>undefined\<close> and the second is the text of the empty object, for every action.
\<close>

definition actionKey :: "actionObj \<Rightarrow> string" where
  "actionKey a = ''undefined'' @ ''_'' @ ''{}''"

text \<open>\<^verbatim>\<open>xs.slice(-n)\<close>: the last \<open>n\<close> elements, and the whole array when \<open>n\<close> is 0.\<close>

definition sliceLast :: "nat \<Rightarrow> 'a list \<Rightarrow> 'a list" where
  "sliceLast n xs = (if n = 0 then xs else drop (length xs - n) xs)"

definition updateActionMemory :: "int \<Rightarrow> actionObj \<Rightarrow> intelligence \<Rightarrow> intelligence" where
  "updateActionMemory now a bi =
     (let actionKey = actionKey a;
          pushed = actionMemory bi @ [\<lparr>key = actionKey, timestamp = now, recorded = a\<rparr>];
          kept = (if length pushed > memoryDepth then tl pushed else pushed);
          counted = (consecutiveActions bi)
            (actionKey \<mapsto> (case consecutiveActions bi actionKey of None \<Rightarrow> 0 | Some n \<Rightarrow> n) + 1)
      in bi\<lparr>actionMemory := kept,
            consecutiveActions :=
              (\<lambda>k. if k \<noteq> actionKey then map_option (\<lambda>n. 0) (counted k) else counted k)\<rparr>)"

text \<open>
  The entry that \<^verbatim>\<open>updateActionMemory\<close> pushes for an action recorded at a time, and
  the memory after a sequence of recordings, each with its time.
\<close>

definition memoryEntryOf :: "int \<times> actionObj \<Rightarrow> memoryEntry" where
  "memoryEntryOf x = \<lparr>key = actionKey (snd x), timestamp = fst x, recorded = snd x\<rparr>"

definition recordAll :: "(int \<times> actionObj) list \<Rightarrow> intelligence \<Rightarrow> intelligence" where
  "recordAll xs bi = foldl (\<lambda>m (t, a). updateActionMemory t a m) bi xs"

text \<open>
  A signature has a non-zero count in \<^verbatim>\<open>consecutiveActions\<close>; exactly one signature
  has.
\<close>

definition nonZeroCount :: "(string \<rightharpoonup> nat) \<Rightarrow> string \<Rightarrow> bool" where
  "nonZeroCount m k = (case m k of None \<Rightarrow> False | Some n \<Rightarrow> 0 < n)"

definition exactlyOneNonZero :: "(string \<rightharpoonup> nat) \<Rightarrow> bool" where
  "exactlyOneNonZero m = (\<exists>!k. nonZeroCount m k)"

definition detectStuckBehavior :: "intelligence \<Rightarrow> bool \<times> intelligence" where
  "detectStuckBehavior bi =
     (if \<not> behavioralOverrides then (False, bi)
      else
        let recentActions = sliceLast stuckDetectionThreshold (actionMemory bi) in
        if length recentActions < stuckDetectionThreshold then (False, bi)
        else
          let actionKeys = map key recentActions;
              allSame = list_all (\<lambda>k. k = hd actionKeys) actionKeys
          in if allSame
             then (True, bi\<lparr>behaviorFlags := (behaviorFlags bi)\<lparr>isStuck := True\<rparr>,
                            contextState := (contextState bi)\<lparr>stuckCount := stuckCount (contextState bi) + 1\<rparr>\<rparr>)
             else (False, bi))"

text \<open>
  The global \<^verbatim>\<open>isTreeBlock\<close> on the result of \<^verbatim>\<open>blockAt\<close>; the name is compared in
  lower case (the letters \<open>A\<close> to \<open>Z\<close> have the codes 65 to 90).
\<close>

definition toLowerCase :: "string \<Rightarrow> string" where
  "toLowerCase s =
     map (\<lambda>c. let n = (of_char c :: nat) in if 65 \<le> n \<and> n \<le> 90 then char_of (n + 32) else c) s"

definition endsWith :: "string \<Rightarrow> string \<Rightarrow> bool" where
  "endsWith s suffix = (drop (length s - length suffix) s = suffix \<and> length suffix \<le> length s)"

definition isTreeBlock :: "string option \<Rightarrow> bool" where
  "isTreeBlock blk =
     (case blk of
        None \<Rightarrow> False
      | Some n \<Rightarrow>
          (let name = toLowerCase n in
           str_includes name ''log'' \<or> str_includes name ''wood'' \<or> endsWith name ''_log''))"

text \<open>
  The three nested loops of \<^verbatim>\<open>getIntelligentOverride\<close> over the offsets around the
  position, \<open>x\<close> outermost and \<open>z\<close> innermost; the result lists the positions of the
  tree blocks found, in the order of the search.
\<close>

definition nearbyTreeBlocks :: "bot \<Rightarrow> (int \<times> int \<times> int) list" where
  "nearbyTreeBlocks b =
     (let searchRadius = proximityMiningDistance in
      concat (map (\<lambda>x. concat (map (\<lambda>y. concat (map (\<lambda>z.
        (case offset (position b) (of_int x) (of_int y) (of_int z) of
           (px, py, pz) \<Rightarrow>
             if isTreeBlock (blockAt b (px, py, pz)) then [(\<lfloor>px\<rfloor>, \<lfloor>py\<rfloor>, \<lfloor>pz\<rfloor>)] else []))
        [- searchRadius .. searchRadius])) [-2 .. 2])) [- searchRadius .. searchRadius]))"

text \<open>
  The reset that every branch returning an action performs: the stuck flag is cleared
  and every count of \<^verbatim>\<open>consecutiveActions\<close> is set to 0.
\<close>

definition resetStuck :: "int \<Rightarrow> bool \<Rightarrow> intelligence \<Rightarrow> intelligence" where
  "resetStuck now exploring bi =
     bi\<lparr>behaviorFlags := (behaviorFlags bi)\<lparr>shouldOverride := True,
            isExploring := (if exploring then True else isExploring (behaviorFlags bi)),
            isStuck := False\<rparr>,
        contextState := (contextState bi)\<lparr>lastOverrideTime := now\<rparr>,
        consecutiveActions := (\<lambda>k. map_option (\<lambda>n. 0) (consecutiveActions bi k))\<rparr>"

definition explorationAction :: "bot \<Rightarrow> actionObj" where
  "explorationAction b =
     (case position b of (px, py, pz) \<Rightarrow>
      \<lparr>action = ''GOTO'',
       args = Some [(''x'', JNum (of_int (fst (relocation b)))), (''y'', JNum py),
                    (''z'', JNum (of_int (snd (relocation b)))), (''radius'', JNum 3)],
       horizon_ms = Some 1200\<rparr>)"

definition getIntelligentOverride ::
  "bot \<Rightarrow> int \<Rightarrow> intelligence \<Rightarrow> actionObj option \<times> intelligence" where
  "getIntelligentOverride b now bi =
     (if \<not> behavioralOverrides \<or> \<not> isStuck (behaviorFlags bi) then (None, bi)
      else
        let recentActions = sliceLast 5 (actionMemory bi);
            recentMiningFailures =
              filter (\<lambda>a. (action (recorded a) = ''MINE_TREE'' \<or> action (recorded a) = ''MINE_AT'')
                           \<and> now - timestamp a < 60000) recentActions
        in if length recentMiningFailures \<ge> 3
           then (Some (explorationAction b), resetStuck now True bi)
           else
             (case nearbyTreeBlocks b of
                (x, y, z) # _ \<Rightarrow>
                  (Some \<lparr>action = ''MINE_TREE'',
                         args = Some [(''x'', JNum (of_int x)), (''y'', JNum (of_int y)),
                                      (''z'', JNum (of_int z))],
                         horizon_ms = Some 10000\<rparr>,
                   resetStuck now False bi)
              | [] \<Rightarrow>
                  if proactiveActions then (Some (explorationAction b), resetStuck now True bi)
                  else (None, bi)))"

definition updatePositionTracking :: "bot \<Rightarrow> int \<Rightarrow> intelligence \<Rightarrow> intelligence" where
  "updatePositionTracking b now bi =
     (let pushed = lastPositions bi @ [(position b, now)]
      in bi\<lparr>lastPositions := (if length pushed > 10 then tl pushed else pushed)\<rparr>)"

section \<open>The action executor\<close>

record historyEntry =
  entryTimestamp :: int
  entryAction :: actionObj
  result :: string
  errorMessage :: "string option"
  actionNumber :: nat
  duration :: int

text \<open>
  The global variables of the engine: the history, the in-flight execution state
  (\<^verbatim>\<open>currentAction\<close>, \<^verbatim>\<open>actionStartTime\<close>), the behavioral memory, the counter of the
  logger and whether the timer of the automatic mode is set.
\<close>

record engine =
  actionHistory :: "historyEntry list"
  currentAction :: "actionObj option"
  actionStartTime :: "int option"
  botIntelligence :: intelligence
  actionCount :: nat
  autoModeTimer :: bool

definition initialEngine :: engine where
  "initialEngine =
     \<lparr>actionHistory = [], currentAction = None, actionStartTime = None,
      botIntelligence = initialIntelligence, actionCount = 0, autoModeTimer = False\<rparr>"

definition isActionInProgress :: "engine \<Rightarrow> bool" where
  "isActionInProgress s = (currentAction s \<noteq> None)"

text \<open>
  \<^verbatim>\<open>addToActionHistory\<close>: the entry is pushed and the oldest entry is dropped when the
  history exceeds its cap. \<^verbatim>\<open>actionStartTime ? ... : 0\<close> takes null and 0 alike.
\<close>

definition addToActionHistory ::
  "int \<Rightarrow> actionObj \<Rightarrow> string \<Rightarrow> string option \<Rightarrow> engine \<Rightarrow> engine" where
  "addToActionHistory now a res err s =
     (let historyEntry =
            \<lparr>entryTimestamp = now, entryAction = a, result = res, errorMessage = err,
             actionNumber = length (actionHistory s) + 1,
             duration = (case actionStartTime s of
                           None \<Rightarrow> 0
                         | Some t \<Rightarrow> if t = 0 then 0 else now - t)\<rparr>;
          pushed = actionHistory s @ [historyEntry]
      in s\<lparr>actionHistory := (if length pushed > maxHistory then tl pushed else pushed)\<rparr>)"

text \<open>
  What the Actuator does for one call of a handler is an input: \<open>failure\<close> is the value
  with which the handler's calls into the bot throw or reject, if they do, and \<open>logged\<close>
  counts the calls of \<^verbatim>\<open>logger.logAction\<close> the handler makes on the way (each one
  increments the logger's counter). \<open>slotRejected\<close> stands for a part of the language
  that is not computed here: whether the range check of \<^verbatim>\<open>SELECT_HOTBAR\<close> rejects a
  slot whose conversion to a number is not one of those computed below.
\<close>

record actuation =
  logged :: nat
  failure :: "error option"
  slotRejected :: bool

datatype outcome = Completed | Threw error

definition clamp :: "int \<Rightarrow> int \<Rightarrow> int \<Rightarrow> int" where
  "clamp n lo hi = max lo (min hi n)"

text \<open>\<^verbatim>\<open>[x,y,z].some(v => typeof v !== 'number')\<close> on the destructured \<^verbatim>\<open>args\<close>.\<close>

definition isNumber :: "json option \<Rightarrow> bool" where
  "isNumber v = (case v of Some (JNum n) \<Rightarrow> True | _ \<Rightarrow> False)"

definition someNotNumber :: "(string \<times> json) list \<Rightarrow> bool" where
  "someNotNumber kv = list_ex (\<lambda>k. \<not> isNumber (map_of kv k)) [''x'', ''y'', ''z'']"

text \<open>
  \<^verbatim>\<open>slot < 0 || slot > 8\<close> for \<^verbatim>\<open>slot = args.slot ?? 0\<close>. The comparisons convert the
  slot to a number: \<^verbatim>\<open>null\<close> and an absent slot are 0, \<^verbatim>\<open>true\<close> is 1 and \<^verbatim>\<open>false\<close> is
  0, and a string is read as a numeric literal after its white space is trimmed. Of
  the literals, the empty string (0) and the decimal integers with an optional sign are
  computed; for the other strings, and for arrays and objects, which convert through
  a string, the result of the check is the input \<open>slotRejected\<close>.
\<close>

definition isDigit :: "char \<Rightarrow> bool" where
  "isDigit c = (48 \<le> (of_char c :: nat) \<and> (of_char c :: nat) \<le> 57)"

definition isSpace :: "char \<Rightarrow> bool" where
  "isSpace c = ((of_char c :: nat) \<in> set [9, 10, 11, 12, 13, 32])"

definition trim :: "string \<Rightarrow> string" where
  "trim s = rev (dropWhile isSpace (rev (dropWhile isSpace s)))"

definition digitsValue :: "string \<Rightarrow> int" where
  "digitsValue ds = foldl (\<lambda>n c. 10 * n + int (of_char c - (48::nat))) 0 ds"

definition integerLiteral :: "string \<Rightarrow> int option" where
  "integerLiteral s =
     (if s = [] then Some 0
      else
        let negative = (hd s = CHR ''-'');
            ds = (if hd s = CHR ''-'' \<or> hd s = CHR ''+'' then tl s else s)
        in if ds \<noteq> [] \<and> list_all isDigit ds
           then Some (if negative then - digitsValue ds else digitsValue ds)
           else None)"

definition slotOutOfRange :: "actuation \<Rightarrow> json option \<Rightarrow> bool" where
  "slotOutOfRange w slot =
     (case slot of
        None \<Rightarrow> False
      | Some JNull \<Rightarrow> False
      | Some (JBool t) \<Rightarrow> False
      | Some (JNum n) \<Rightarrow> n < 0 \<or> n > 8
      | Some (JStr s) \<Rightarrow>
          (case integerLiteral (trim s) of
             Some n \<Rightarrow> n < 0 \<or> n > 8
           | None \<Rightarrow> slotRejected w)
      | Some _ \<Rightarrow> slotRejected w)"

text \<open>
  The \<^verbatim>\<open>switch\<close> of \<^verbatim>\<open>doAction\<close>. Each case first checks its arguments, throwing
  before any call into the bot, and then acts through the bot, which is \<open>w\<close>.
\<close>

definition runHandler :: "actuation \<Rightarrow> string \<Rightarrow> (string \<times> json) list \<Rightarrow> actuation" where
  "runHandler w kind kv =
     (let thrown = (\<lambda>m. w\<lparr>logged := 0, failure := Some (Error m)\<rparr>) in
      if kind = ''MOVE'' then w
      else if kind = ''LOOK_AT'' then
        (if someNotNumber kv then thrown ''LOOK_AT requires numeric x,y,z'' else w)
      else if kind = ''GOTO'' then
        (if someNotNumber kv then thrown ''GOTO requires x,y,z'' else w)
      else if kind = ''MINE_AT'' then
        (if someNotNumber kv then thrown ''MINE_AT requires x,y,z'' else w)
      else if kind = ''MINE_TREE'' then
        (if someNotNumber kv then thrown ''MINE_TREE requires x,y,z'' else w)
      else if kind = ''PLACE_AT'' then
        (if someNotNumber kv then thrown ''PLACE_AT requires x,y,z'' else w)
      else if kind = ''ATTACK_NEAREST'' then w
      else if kind = ''SELECT_HOTBAR'' then
        (if slotOutOfRange w (map_of kv ''slot'') then thrown ''slot must be 0..8'' else w)
      else if kind = ''EAT'' then w
      else if kind = ''CRAFT'' then w
      else thrown (''Unknown action: '' @ kind))"

text \<open>
  \<^verbatim>\<open>doAction\<close> is an \<^verbatim>\<open>async\<close> function: its handlers wait for the bot, and while they
  wait other callers run (the timer of the automatic mode, the HTTP routes). A call is
  therefore two steps. \<open>doAction_begin\<close> is the part before the handler: the defaults
  and the clamp of the parameters, the writes of \<^verbatim>\<open>currentAction\<close> and
  \<^verbatim>\<open>actionStartTime\<close>, and the log entry \<^verbatim>\<open>started\<close>; \<open>started\<close> is the reading of
  \<^verbatim>\<open>Date.now()\<close>.
\<close>

definition normalized :: "actionObj \<Rightarrow> actionObj" where
  "normalized a =
     \<lparr>action = action a,
      args = Some (case args a of None \<Rightarrow> [] | Some m \<Rightarrow> m),
      horizon_ms =
        Some (clamp (case horizon_ms a of None \<Rightarrow> 400 | Some n \<Rightarrow> if n = 0 then 400 else n)
                100 5000)\<rparr>"

definition doAction_begin :: "int \<Rightarrow> actionObj \<Rightarrow> engine \<Rightarrow> engine" where
  "doAction_begin started a s =
     s\<lparr>currentAction := Some (normalized a), actionStartTime := Some started,
       actionCount := actionCount s + 1\<rparr>"

text \<open>
  \<open>doAction_end\<close> is the rest of the call, run in the state that the engine has when
  the handler is done: the result is \<open>Completed\<close> when the promise resolves and
  \<open>Threw e\<close> when it rejects with \<open>e\<close>; \<open>finished\<close> is the reading of \<^verbatim>\<open>Date.now()\<close>. The
  \<^verbatim>\<open>catch\<close> block logs the failure, evaluates \<^verbatim>\<open>error.message\<close> for the history entry
  and only then clears the in-flight state: when the handler has thrown null or
  undefined, that evaluation raises a \<^verbatim>\<open>TypeError\<close>, which leaves \<^verbatim>\<open>doAction\<close> with no
  history entry made and the in-flight state as it is.
\<close>

definition doAction_end :: "actuation \<Rightarrow> int \<Rightarrow> actionObj \<Rightarrow> engine \<Rightarrow> outcome \<times> engine" where
  "doAction_end w finished a s =
     (let cur = normalized a;
          r = runHandler w (action cur) (case args cur of None \<Rightarrow> [] | Some m \<Rightarrow> m);
          s2 = s\<lparr>actionCount := actionCount s + logged r + 1\<rparr>
      in case failure r of
           None \<Rightarrow>
             (Completed,
              (addToActionHistory finished cur ''completed'' None s2)
                \<lparr>currentAction := None, actionStartTime := None\<rparr>)
         | Some (Error m) \<Rightarrow>
             (Threw (Error m),
              (addToActionHistory finished cur ''failed'' (Some m) s2)
                \<lparr>currentAction := None, actionStartTime := None\<rparr>)
         | Some OtherValue \<Rightarrow>
             (Threw OtherValue,
              (addToActionHistory finished cur ''failed'' None s2)
                \<lparr>currentAction := None, actionStartTime := None\<rparr>)
         | Some NullOrUndefined \<Rightarrow> (Threw typeError, s2))"

text \<open>A call of \<^verbatim>\<open>doAction\<close> during which no other caller runs.\<close>

definition doAction ::
  "actuation \<Rightarrow> int \<Rightarrow> int \<Rightarrow> actionObj \<Rightarrow> engine \<Rightarrow> outcome \<times> engine" where
  "doAction w started finished a s = doAction_end w finished a (doAction_begin started a s)"

section \<open>The decision cycle\<close>

text \<open>
  \<^verbatim>\<open>executeLLMDecision\<close> is \<^verbatim>\<open>async\<close> too. Its first part runs without interruption:
  the limit of the action count, the check for an action in flight, the tracking of the
  position (which throws when \<^verbatim>\<open>bot.entity\<close> is not set; the enclosing \<^verbatim>\<open>try\<close> catches
  the error and the cycle returns false), the stuck check and the override. When the
  override gives an action, the cycle records it and calls \<^verbatim>\<open>doAction\<close> at once:
  \<open>Execute a\<close>, with the state of that call. Otherwise it builds the prompt and waits
  for the answer of the policy source: \<open>AwaitPolicy\<close>. \<open>now\<close> is the reading of
  \<^verbatim>\<open>Date.now()\<close>.
\<close>

datatype stage = ReturnFalse | Execute actionObj | AwaitPolicy

definition cycleBegin :: "bot \<Rightarrow> int \<Rightarrow> engine \<Rightarrow> stage \<times> engine" where
  "cycleBegin b now s =
     (if actionCount s \<ge> maxActions then (ReturnFalse, s\<lparr>autoModeTimer := False\<rparr>)
      else if actionSync_enabled \<and> isActionInProgress s then (ReturnFalse, s)
      else if \<not> entity b then (ReturnFalse, s)
      else
        let bi1 = updatePositionTracking b now (botIntelligence s);
            (stuck, bi2) = detectStuckBehavior bi1;
            (intelligentOverride, bi3) = getIntelligentOverride b now bi2
        in case intelligentOverride of
             Some a \<Rightarrow>
               (Execute a,
                s\<lparr>botIntelligence := (updateActionMemory now a bi3)\<lparr>lastLLMDecision := Some a\<rparr>\<rparr>)
           | None \<Rightarrow> (AwaitPolicy, s\<lparr>botIntelligence := bi3\<rparr>))"

text \<open>
  What the cycle obtains from the policy source: \<open>NoDecision\<close> when the request fails or
  its answer holds no parseable JSON object, and \<open>Proposal j\<close> when \<^verbatim>\<open>JSON.parse\<close>
  yields \<open>j\<close>.
\<close>

datatype policy = NoDecision | Proposal json

text \<open>
  The second part of the cycle runs when the answer has arrived, in the state that the
  engine has then: the proposal is validated and recorded, and the result is the action
  with which the cycle calls \<^verbatim>\<open>doAction\<close> at once, if any, with the state of that call.
  The in-flight state is not checked again. \<^verbatim>\<open>shouldUseContextAwareDecision\<close> only logs
  and is left out.
\<close>

definition cycleResume :: "policy \<Rightarrow> int \<Rightarrow> engine \<Rightarrow> actionObj option \<times> engine" where
  "cycleResume p now s =
     (case p of
        NoDecision \<Rightarrow> (None, s)
      | Proposal j \<Rightarrow>
          if \<not> validateAction j then (None, s)
          else
            (Some (asAction j),
             s\<lparr>botIntelligence :=
                 (updateActionMemory now (asAction j) (botIntelligence s))
                   \<lparr>lastLLMDecision := Some (asAction j)\<rparr>\<rparr>))"

text \<open>
  A cycle up to its call of \<^verbatim>\<open>doAction\<close> when no other caller runs while it waits for
  the policy source: the action it is about to execute, if any, and the state of the
  call.
\<close>

definition decide :: "bot \<Rightarrow> policy \<Rightarrow> int \<Rightarrow> engine \<Rightarrow> actionObj option \<times> engine" where
  "decide b p now s =
     (case cycleBegin b now s of
        (ReturnFalse, s') \<Rightarrow> (None, s')
      | (Execute a, s') \<Rightarrow> (Some a, s')
      | (AwaitPolicy, s') \<Rightarrow> cycleResume p now s')"

text \<open>
  A whole call of \<^verbatim>\<open>executeLLMDecision\<close> during which no other caller runs: true when
  an action was executed and completed; an error thrown by \<^verbatim>\<open>doAction\<close> is caught by the
  enclosing \<^verbatim>\<open>try\<close> and gives false.
\<close>

definition executeLLMDecision ::
  "bot \<Rightarrow> policy \<Rightarrow> actuation \<Rightarrow> int \<Rightarrow> int \<Rightarrow> int \<Rightarrow> engine \<Rightarrow> bool \<times> engine" where
  "executeLLMDecision b p w now started finished s =
     (case decide b p now s of
        (None, s') \<Rightarrow> (False, s')
      | (Some a, s') \<Rightarrow>
          (case doAction w started finished a s' of
             (Completed, s'') \<Rightarrow> (True, s'')
           | (Threw e, s'') \<Rightarrow> (False, s'')))"

text \<open>
  The states of the engine: the initial one, and those that the steps above lead to,
  in any order and with any inputs. The timer of the automatic mode starts a cycle at
  every interval, whether or not the previous one has returned, and the routes
  \<^verbatim>\<open>POST /decide\<close> and \<^verbatim>\<open>POST /act\<close> start a cycle and a call of \<^verbatim>\<open>doAction\<close> (of a
  validated action) whenever a request arrives; the last rule is the start and the stop
  of the automatic mode.
\<close>

inductive engineReachable :: "engine \<Rightarrow> bool" where
  e_initial: "engineReachable initialEngine"
| e_begin: "engineReachable s \<Longrightarrow> engineReachable (snd (cycleBegin b now s))"
| e_resume: "engineReachable s \<Longrightarrow> engineReachable (snd (cycleResume p now s))"
| e_call: "engineReachable s \<Longrightarrow> engineReachable (doAction_begin started a s)"
| e_return: "engineReachable s \<Longrightarrow> engineReachable (snd (doAction_end w finished a s))"
| e_auto: "engineReachable s \<Longrightarrow> engineReachable (s\<lparr>autoModeTimer := t\<rparr>)"

section \<open>Sample situations\<close>

text \<open>
  Concrete inputs on which the definitions above are run: a bot at rest in an empty
  world, at distance 30 from its exploration target, the same bot with low health, and the same bot with a hostile mob at distance
  2 whose \<^verbatim>\<open>attack\<close> call throws.
\<close>

definition calmBot :: bot where
  "calmBot =
     \<lparr>entity = True, position = (0, 64, 0), distanceTo = (\<lambda>p. 30),
      sensed = \<lparr>nearbyMobs = [], trees = [], ores = [],
        inventory = \<lparr>wood = 0, stone = 0, food = 0, tools = 0, totalItems = 0\<rparr>,
        health = 20, hunger = 20\<rparr>,
      timeOfDay = 1000, blockName = (\<lambda>p. None), pathfinder = True,
      attackError = None, setGoalError = None, exploreTarget = (30, 64, 0),
      relocation = (30, 0)\<rparr>"

definition hurtBot :: bot where
  "hurtBot = calmBot\<lparr>sensed := (sensed calmBot)\<lparr>health := 5\<rparr>\<rparr>"

definition zombie :: mobInfo where
  "zombie = \<lparr>mobType = ''zombie'', mobDistance = 2, isHostile = True\<rparr>"

definition dangerBot :: bot where
  "dangerBot =
     calmBot\<lparr>sensed := (sensed calmBot)\<lparr>nearbyMobs := [zombie]\<rparr>,
       attackError := Some (Error ''attack failed'')\<rparr>"

text \<open>
  The scheduler of the hurt bot after its first tick at time 1000, which activates
  \<^verbatim>\<open>SurvivalGoal\<close> (reference 0) and \<^verbatim>\<open>ExploreGoal\<close> (reference 3).
\<close>

definition hurtSelector :: goalSelector where
  "hurtSelector = fst (GoalSelector_tick hurtBot 1000 (initializeGoalSystem hurtBot))"

text \<open>
  A bot with one tree block next to it; a navigate-to action, the memory after it has
  been recorded three times, and a memory whose last three signatures are not
  identical; an engine whose memory holds the three recordings; two values as the policy source may send them, one without a
  target; an Actuator that does what it is asked.
\<close>

definition treeBot :: bot where
  "treeBot = calmBot\<lparr>blockName := (\<lambda>p. if p = (1, 64, 0) then Some ''oak_log'' else None)\<rparr>"

definition gotoAction :: actionObj where
  "gotoAction =
     \<lparr>action = ''GOTO'',
      args = Some [(''x'', JNum 10), (''y'', JNum 64), (''z'', JNum 10)],
      horizon_ms = Some 400\<rparr>"

definition moveAction :: actionObj where
  "moveAction =
     \<lparr>action = ''MOVE'', args = Some [(''forward'', JBool True)], horizon_ms = Some 400\<rparr>"

definition eatAction :: actionObj where
  "eatAction = \<lparr>action = ''EAT'', args = None, horizon_ms = None\<rparr>"

definition threeGotos :: intelligence where
  "threeGotos = recordAll [(1, gotoAction), (2, gotoAction), (3, gotoAction)] initialIntelligence"

definition mixedMemory :: intelligence where
  "mixedMemory =
     initialIntelligence\<lparr>actionMemory :=
       [\<lparr>key = ''a'', timestamp = 1, recorded = gotoAction\<rparr>,
        \<lparr>key = ''b'', timestamp = 2, recorded = gotoAction\<rparr>,
        \<lparr>key = ''b'', timestamp = 3, recorded = gotoAction\<rparr>]\<rparr>"

definition stuckEngine :: engine where
  "stuckEngine = initialEngine\<lparr>botIntelligence := threeGotos\<rparr>"

definition validGoto :: json where
  "validGoto =
     JObj [(''action'', JStr ''GOTO''),
           (''args'', JObj [(''x'', JNum 10), (''y'', JNum 64), (''z'', JNum 10)])]"

definition gotoWithoutTarget :: json where
  "gotoWithoutTarget = JObj [(''action'', JStr ''GOTO''), (''args'', JObj [])]"

definition noActuation :: actuation where
  "noActuation = \<lparr>logged = 0, failure = None, slotRejected = False\<rparr>"

text \<open>
  A second value of the policy source; an Actuator whose handler rejects with an
  \<^verbatim>\<open>Error\<close>, and one whose handler rejects with \<^verbatim>\<open>undefined\<close>.
\<close>

definition validMove :: json where
  "validMove = JObj [(''action'', JStr ''MOVE''), (''args'', JObj [(''forward'', JBool True)])]"






text \<open>
  The engine after two cycles that follow each other, the first executing a \<^verbatim>\<open>MOVE\<close>
  and the second a \<^verbatim>\<open>GOTO\<close>, and the engine after three cycles that each execute the
  same \<^verbatim>\<open>GOTO\<close>.
\<close>

definition afterMove :: engine where
  "afterMove =
     snd (executeLLMDecision calmBot (Proposal validMove) noActuation 10 11 12 initialEngine)"

definition afterMoveAndGoto :: engine where
  "afterMoveAndGoto =
     snd (executeLLMDecision calmBot (Proposal validGoto) noActuation 20 21 22 afterMove)"

definition afterThreeGotos :: engine where
  "afterThreeGotos =
     snd (executeLLMDecision calmBot (Proposal validGoto) noActuation 30 31 32
       (snd (executeLLMDecision calmBot (Proposal validGoto) noActuation 20 21 22
          (snd (executeLLMDecision calmBot (Proposal validGoto) noActuation 10 11 12
             initialEngine)))))"

section \<open>Properties of goals\<close>

text \<open>
  Claim C8. The start timestamp of a goal is non-null exactly when the goal is active:
  this holds of every newly constructed goal (the base class and the four subclasses),
  and it holds after \<^verbatim>\<open>start\<close> and after \<^verbatim>\<open>stop\<close> on any goal, whatever the goal was
  before.
\<close>

theorem startTime_set_iff_isActive:
  "(startTime (Goal p n) \<noteq> None) = isActive (Goal p n)
   \<and> (startTime newMineTreeGoal \<noteq> None) = isActive newMineTreeGoal
   \<and> (startTime newSurvivalGoal \<noteq> None) = isActive newSurvivalGoal
   \<and> (startTime newExploreGoal \<noteq> None) = isActive newExploreGoal
   \<and> (startTime newBuildShelterGoal \<noteq> None) = isActive newBuildShelterGoal
   \<and> (startTime (start b sd now g) \<noteq> None) = isActive (start b sd now g)
   \<and> (startTime (stop g) \<noteq> None) = isActive (stop g)"
  by (simp add: Goal_def newMineTreeGoal_def newSurvivalGoal_def newExploreGoal_def
      newBuildShelterGoal_def start_def stop_def Goal_start_def Goal_stop_def Let_def
      split: goalClass.split)

section \<open>Properties of the scheduler\<close>

lemma removeFinished_keep:
  "removeFinished b sd now rs h = (keep, h') \<Longrightarrow> set keep \<subseteq> set rs \<and> length keep \<le> length rs"
proof (induction rs arbitrary: h keep h')
  case Nil
  then show ?case by simp
next
  case (Cons r rs)
  show ?case
  proof (cases "hasTimedOut now (h r) \<or> \<not> canContinue b sd now (h r)")
    case True
    with Cons.prems have "removeFinished b sd now rs (h(r := stop (h r))) = (keep, h')" by simp
    from Cons.IH[OF this] show ?thesis by auto
  next
    case False
    obtain k hh where e: "removeFinished b sd now rs h = (k, hh)" by (cases "removeFinished b sd now rs h")
    with False Cons.prems have "keep = r # k" by auto
    with Cons.IH[OF e] show ?thesis by auto
  qed
qed

lemma removeFinished_subset:
  "set (fst (removeFinished b sd now rs h)) \<subseteq> set rs"
  using removeFinished_keep[of b sd now rs h] by (cases "removeFinished b sd now rs h") simp

lemma removeFinished_length:
  "length (fst (removeFinished b sd now rs h)) \<le> length rs"
  using removeFinished_keep[of b sd now rs h] by (cases "removeFinished b sd now rs h") simp


lemma activate_subset:
  "set (fst (activate b sd now cs active h)) \<subseteq> set active \<union> set cs"
proof (induction cs arbitrary: active h)
  case Nil
  then show ?case by simp
next
  case (Cons c cs)
  show ?case
  proof (cases "length active < maxActiveGoals")
    case True
    then have eq: "activate b sd now (c # cs) active h =
        activate b sd now cs (active @ [c]) (h(c := start b sd now (h c)))" by simp
    have "set (fst (activate b sd now cs (active @ [c]) (h(c := start b sd now (h c)))))
        \<subseteq> set (active @ [c]) \<union> set cs" by (rule Cons.IH)
    then have "set (fst (activate b sd now (c # cs) active h)) \<subseteq> set (active @ [c]) \<union> set cs"
      by (simp only: eq)
    then show ?thesis by auto
  next
    case False
    then show ?thesis by auto
  qed
qed

lemma activate_length:
  "length active \<le> maxActiveGoals \<Longrightarrow>
   length (fst (activate b sd now cs active h)) \<le> maxActiveGoals"
proof (induction cs arbitrary: active h)
  case Nil
  then show ?case by simp
next
  case (Cons c cs)
  show ?case
  proof (cases "length active < maxActiveGoals")
    case True
    then have "length (active @ [c]) \<le> maxActiveGoals" by simp
    from Cons.IH[OF this] True show ?thesis by simp
  next
    case False
    with Cons.prems show ?thesis by simp
  qed
qed

lemma availableGoals_subset:
  "set (availableGoals b sd now registry active h) \<subseteq> set registry"
  by (auto simp: availableGoals_def sortByPriority_def)

lemma selectGoals_goals: "goals (selectGoals b now s) = goals s"
  by (simp add: selectGoals_def Let_def split: prod.splits)

lemma tick_goals: "goals (fst (GoalSelector_tick b now s)) = goals s"
  by (simp add: GoalSelector_tick_def Let_def selectGoals_goals split: prod.splits)

lemma tick_activeGoals:
  "activeGoals (fst (GoalSelector_tick b now s)) =
     (if now - selectorLastTickTime s < tickInterval then activeGoals s
      else activeGoals (selectGoals b now s))"
  by (simp add: GoalSelector_tick_def Let_def split: prod.splits)

lemma selectGoals_eq:
  assumes "removeFinished b (sensed b) now (activeGoals s) (objects s) = (keep, h1)"
    and "activate b (sensed b) now (availableGoals b (sensed b) now (goals s) keep h1) keep h1
         = (active, h2)"
  shows "selectGoals b now s =
     s\<lparr>selectorLastTickTime := now, sensorData := sensed b, activeGoals := active, objects := h2\<rparr>"
  using assms by (simp add: selectGoals_def Let_def)

lemma selectGoals_bounded:
  assumes "length (activeGoals s) \<le> maxActiveGoals" "set (activeGoals s) \<subseteq> set (goals s)"
  shows "length (activeGoals (selectGoals b now s)) \<le> maxActiveGoals
         \<and> set (activeGoals (selectGoals b now s)) \<subseteq> set (goals s)"
proof -
  obtain keep h1 where rf: "removeFinished b (sensed b) now (activeGoals s) (objects s) = (keep, h1)"
    by (cases "removeFinished b (sensed b) now (activeGoals s) (objects s)")
  let ?cs = "availableGoals b (sensed b) now (goals s) keep h1"
  obtain active h2 where ac: "activate b (sensed b) now ?cs keep h1 = (active, h2)"
    by (cases "activate b (sensed b) now ?cs keep h1")
  from removeFinished_keep[OF rf] assms have k: "length keep \<le> maxActiveGoals" "set keep \<subseteq> set (goals s)"
    by auto
  from activate_length[OF k(1), of b "sensed b" now ?cs h1] ac have l: "length active \<le> maxActiveGoals"
    by simp
  from activate_subset[of b "sensed b" now ?cs keep h1] ac k(2)
    availableGoals_subset[of b "sensed b" now "goals s" keep h1]
  have s: "set active \<subseteq> set (goals s)" by auto
  show ?thesis using l s by (simp add: selectGoals_eq[OF rf ac])
qed

text \<open>
  Claim C2. In every state the scheduler reaches, and so after each tick of every
  sequence of ticks, the active set holds at most \<^verbatim>\<open>maxActiveGoals\<close> goals and every
  goal of the active set is in the registry.
\<close>

theorem active_bounded:
  "reachable s \<Longrightarrow>
   length (activeGoals s) \<le> maxActiveGoals \<and> set (activeGoals s) \<subseteq> set (goals s)"
proof (induction rule: reachable.induct)
  case (r_new h)
  then show ?case by (simp add: GoalSelector_def)
next
  case (r_addGoal s b r)
  then show ?case by (auto simp: addGoal_def sortByPriority_def)
next
  case (r_removeGoal s n)
  then show ?case by (auto simp: removeGoal_def intro: le_trans[OF length_filter_le])
next
  case (r_tick s b now)
  then show ?case using selectGoals_bounded[of s b now]
    by (simp add: tick_goals tick_activeGoals)
next
  case (r_resort s b)
  then show ?case by (auto simp: sortByPriority_def)
next
  case (r_objects s h)
  then show ?case by simp
qed

theorem active_bounded_witness:
  "reachable hurtSelector
   \<and> activeGoals hurtSelector = [0, 3]
   \<and> length (activeGoals hurtSelector) \<le> maxActiveGoals
   \<and> set (activeGoals hurtSelector) \<subseteq> set (goals hurtSelector)"
proof -
  have r: "reachable hurtSelector"
    unfolding hurtSelector_def initializeGoalSystem_def by (intro reachable.intros)
  have a: "activeGoals hurtSelector = [0, 3]" by code_simp
  show ?thesis using r a active_bounded[OF r] by simp
qed










lemma tickAll_append:
  "tickAll b sd now pre h = (h1, None) \<Longrightarrow>
   tickAll b sd now (pre @ rest) h = tickAll b sd now rest h1"
proof (induction pre arbitrary: h)
  case Nil
  then show ?case by simp
next
  case (Cons x pre)
  obtain g' er where t: "tick b sd now (h x) = (g', er)" by (cases "tick b sd now (h x)")
  show ?case
  proof (cases er)
    case None
    with t Cons.prems have "tickAll b sd now pre (h(x := g')) = (h1, None)" by simp
    then have ih: "tickAll b sd now (pre @ rest) (h(x := g')) = tickAll b sd now rest h1"
      by (rule Cons.IH)
    show ?thesis using t None by (simp add: ih)
  next
    case (Some e)
    with t Cons.prems show ?thesis by simp
  qed
qed

lemma tickAll_other:
  "tickAll b sd now rs h = (h', er) \<Longrightarrow> x \<notin> set rs \<Longrightarrow> h' x = h x"
proof (induction rs arbitrary: h)
  case Nil
  then show ?case by simp
next
  case (Cons y rs)
  obtain g' e1 where t: "tick b sd now (h y) = (g', e1)" by (cases "tick b sd now (h y)")
  show ?case
  proof (cases e1)
    case None
    with t Cons.prems have "tickAll b sd now rs (h(y := g')) = (h', er)" by simp
    moreover from Cons.prems(2) have "x \<notin> set rs" "x \<noteq> y" by auto
    ultimately have "h' x = (h(y := g')) x" using Cons.IH by blast
    with \<open>x \<noteq> y\<close> show ?thesis by simp
  next
    case (Some e)
    with t Cons.prems show ?thesis by auto
  qed
qed

lemma tick_throws:
  "snd (tick b sd now g) = Some e \<Longrightarrow>
   cls g = SurvivalGoal \<and> isActive (fst (tick b sd now g)) = isActive g
   \<and> startTime (fst (tick b sd now g)) = startTime g"
  by (cases "cls g")
     (auto simp: tick_def Goal_tick_def Let_def split: option.splits if_splits phase.splits)

lemma selectGoals_sensorData: "sensorData (selectGoals b now s) = sensed b"
  by (simp add: selectGoals_def Let_def split: prod.splits)

lemma tick_due:
  "tickInterval \<le> now - selectorLastTickTime s \<Longrightarrow>
   GoalSelector_tick b now s =
     ((selectGoals b now s)\<lparr>objects :=
         fst (tickAll b (sensed b) now (activeGoals (selectGoals b now s)) (objects (selectGoals b now s)))\<rparr>,
      snd (tickAll b (sensed b) now (activeGoals (selectGoals b now s)) (objects (selectGoals b now s))))"
  by (simp add: GoalSelector_tick_def Let_def selectGoals_sensorData split: prod.splits)

text \<open>
  Claim C5, as stated, fails: an error thrown inside a goal's tick leaves
  \<^verbatim>\<open>GoalSelector.tick\<close>. On the first tick of the bot in danger, \<^verbatim>\<open>SurvivalGoal\<close>
  (reference 0) attacks the mob, the attack throws, and the scheduler's tick throws the
  same error; the goal is still active, and \<^verbatim>\<open>ExploreGoal\<close> (reference 3), which
  follows it in the active set, has not been ticked.
\<close>

theorem goal_tick_error_counterexample:
  "snd (GoalSelector_tick dangerBot 1000 (initializeGoalSystem dangerBot))
     = Some (Error ''attack failed'')
   \<and> activeGoals (fst (GoalSelector_tick dangerBot 1000 (initializeGoalSystem dangerBot)))
     = [0, 3]
   \<and> isActive (objects (fst (GoalSelector_tick dangerBot 1000 (initializeGoalSystem dangerBot))) 0)
   \<and> lastTickTime
       (objects (fst (GoalSelector_tick dangerBot 1000 (initializeGoalSystem dangerBot))) 3)
     = None"
  by code_simp

text \<open>
  Claim C5, amended. \<^verbatim>\<open>GoalSelector.tick\<close> has no handler around the ticks of the
  goals. When the tick is due, the goals before \<open>r\<close> in the active set tick without an
  error and the tick of \<open>r\<close> throws \<open>e\<close>, then the scheduler's tick throws \<open>e\<close>; the
  throwing goal is a \<^verbatim>\<open>SurvivalGoal\<close>, which the call neither stops nor restarts (its
  activity flag and start time are as before its tick), and no goal other than \<open>r\<close> and
  those before it is changed: the goals after \<open>r\<close> are not ticked. \<^verbatim>\<open>MineTreeGoal.tick\<close>
  never throws into the scheduler. When the promise of its \<^verbatim>\<open>mineTree()\<close> rejects with
  an \<^verbatim>\<open>Error\<close>, the goal handles it itself: the failure count is one more than before,
  the time of the failure is recorded, and the goal is stopped (inactive, no start
  time). When the promise resolves, the failure count is 0 and the goal is stopped
  likewise.
\<close>

theorem goal_tick_error_propagates:
  assumes due: "tickInterval \<le> now - selectorLastTickTime s"
    and order: "activeGoals (selectGoals b now s) = pre @ r # post"
    and before: "snd (tickAll b (sensed b) now pre (objects (selectGoals b now s))) = None"
    and throws:
      "snd (tick b (sensed b) now
         (fst (tickAll b (sensed b) now pre (objects (selectGoals b now s))) r)) = Some e"
  shows "snd (GoalSelector_tick b now s) = Some e
    \<and> cls (objects (fst (GoalSelector_tick b now s)) r) = SurvivalGoal
    \<and> isActive (objects (fst (GoalSelector_tick b now s)) r)
        = isActive (fst (tickAll b (sensed b) now pre (objects (selectGoals b now s))) r)
    \<and> startTime (objects (fst (GoalSelector_tick b now s)) r)
        = startTime (fst (tickAll b (sensed b) now pre (objects (selectGoals b now s))) r)
    \<and> (\<forall>x. x \<notin> set pre \<and> x \<noteq> r \<longrightarrow>
          objects (fst (GoalSelector_tick b now s)) x = objects (selectGoals b now s) x)
    \<and> snd (tick b (sensed b) now (g\<lparr>cls := MineTreeGoal tt ps fc lft\<rparr>)) = None
    \<and> cls (MineTreeGoal_settled later (Some (Error m)) (g\<lparr>cls := MineTreeGoal tt ps fc lft\<rparr>))
        = MineTreeGoal tt ps (fc + 1) later
    \<and> \<not> isActive (MineTreeGoal_settled later (Some (Error m)) (g\<lparr>cls := MineTreeGoal tt ps fc lft\<rparr>))
    \<and> startTime (MineTreeGoal_settled later (Some (Error m)) (g\<lparr>cls := MineTreeGoal tt ps fc lft\<rparr>))
        = None
    \<and> cls (MineTreeGoal_settled later None (g\<lparr>cls := MineTreeGoal tt ps fc lft\<rparr>))
        = MineTreeGoal tt ps 0 lft
    \<and> \<not> isActive (MineTreeGoal_settled later None (g\<lparr>cls := MineTreeGoal tt ps fc lft\<rparr>))
    \<and> startTime (MineTreeGoal_settled later None (g\<lparr>cls := MineTreeGoal tt ps fc lft\<rparr>)) = None"
proof -
  let ?s1 = "selectGoals b now s"
  obtain h1 where pre: "tickAll b (sensed b) now pre (objects ?s1) = (h1, None)"
    using before by (cases "tickAll b (sensed b) now pre (objects ?s1)") auto
  obtain g' where t: "tick b (sensed b) now (h1 r) = (g', Some e)"
    using throws pre by (cases "tick b (sensed b) now (h1 r)") auto
  have all: "tickAll b (sensed b) now (activeGoals ?s1) (objects ?s1) = (h1(r := g'), Some e)"
    using tickAll_append[OF pre, of "r # post"] t by (simp add: order)
  have res: "GoalSelector_tick b now s = (?s1\<lparr>objects := h1(r := g')\<rparr>, Some e)"
    using tick_due[OF due, of b] all by simp
  from tick_throws[of b "sensed b" now "h1 r" e] t
  have c: "cls (h1 r) = SurvivalGoal" "isActive g' = isActive (h1 r)" "startTime g' = startTime (h1 r)"
    by auto
  have c': "cls g' = SurvivalGoal"
    using t c(1) by (auto simp: tick_def Goal_tick_def Let_def split: if_splits)
  have oth: "\<forall>x. x \<notin> set pre \<and> x \<noteq> r \<longrightarrow> (h1(r := g')) x = objects ?s1 x"
    using tickAll_other[OF pre] by simp
  have m1: "snd (tick b (sensed b) now (g\<lparr>cls := MineTreeGoal tt ps fc lft\<rparr>)) = None"
    by (simp add: tick_def Goal_tick_def Let_def split: option.splits)
  have m2: "cls (MineTreeGoal_settled later (Some (Error m)) (g\<lparr>cls := MineTreeGoal tt ps fc lft\<rparr>))
        = MineTreeGoal tt ps (fc + 1) later"
    "\<not> isActive (MineTreeGoal_settled later (Some (Error m)) (g\<lparr>cls := MineTreeGoal tt ps fc lft\<rparr>))"
    "startTime (MineTreeGoal_settled later (Some (Error m)) (g\<lparr>cls := MineTreeGoal tt ps fc lft\<rparr>))
        = None"
    by (simp_all add: MineTreeGoal_settled_def stop_def Goal_stop_def)
  have m3: "cls (MineTreeGoal_settled later None (g\<lparr>cls := MineTreeGoal tt ps fc lft\<rparr>))
        = MineTreeGoal tt ps 0 lft"
    "\<not> isActive (MineTreeGoal_settled later None (g\<lparr>cls := MineTreeGoal tt ps fc lft\<rparr>))"
    "startTime (MineTreeGoal_settled later None (g\<lparr>cls := MineTreeGoal tt ps fc lft\<rparr>)) = None"
    by (simp_all add: MineTreeGoal_settled_def stop_def Goal_stop_def)
  show ?thesis using res c c' oth pre m1 m2 m3 by simp
qed

theorem goal_tick_error_propagates_witness:
  "tickInterval \<le> 1000 - selectorLastTickTime (initializeGoalSystem dangerBot)
   \<and> activeGoals (selectGoals dangerBot 1000 (initializeGoalSystem dangerBot)) = [] @ 0 # [3]
   \<and> snd (tick dangerBot (sensed dangerBot) 1000
        (objects (selectGoals dangerBot 1000 (initializeGoalSystem dangerBot)) 0))
      = Some (Error ''attack failed'')
   \<and> snd (GoalSelector_tick dangerBot 1000 (initializeGoalSystem dangerBot))
      = Some (Error ''attack failed'')
   \<and> objects (fst (GoalSelector_tick dangerBot 1000 (initializeGoalSystem dangerBot))) 3
      = objects (selectGoals dangerBot 1000 (initializeGoalSystem dangerBot)) 3
   \<and> cls (MineTreeGoal_settled 2000 (Some (Error ''dig failed''))
        (newMineTreeGoal\<lparr>cls := MineTreeGoal (Some (3, 64, 0)) True 1 500\<rparr>))
      = MineTreeGoal (Some (3, 64, 0)) True 2 2000
   \<and> cls (MineTreeGoal_settled 2000 None
        (newMineTreeGoal\<lparr>cls := MineTreeGoal (Some (3, 64, 0)) True 1 500\<rparr>))
      = MineTreeGoal (Some (3, 64, 0)) True 0 500"
proof -
  have due: "tickInterval \<le> 1000 - selectorLastTickTime (initializeGoalSystem dangerBot)"
    by code_simp
  have order: "activeGoals (selectGoals dangerBot 1000 (initializeGoalSystem dangerBot))
    = [] @ 0 # [3]" by code_simp
  have before: "snd (tickAll dangerBot (sensed dangerBot) 1000 []
    (objects (selectGoals dangerBot 1000 (initializeGoalSystem dangerBot)))) = None" by simp
  have t: "snd (tick dangerBot (sensed dangerBot) 1000
        (objects (selectGoals dangerBot 1000 (initializeGoalSystem dangerBot)) 0))
      = Some (Error ''attack failed'')" by code_simp
  then have throws: "snd (tick dangerBot (sensed dangerBot) 1000
        (fst (tickAll dangerBot (sensed dangerBot) 1000 []
           (objects (selectGoals dangerBot 1000 (initializeGoalSystem dangerBot)))) 0))
      = Some (Error ''attack failed'')" by simp
  show ?thesis
    using goal_tick_error_propagates[OF due order before throws,
        where later = 2000 and m = "''dig failed''" and g = newMineTreeGoal
          and tt = "Some (3, 64, 0)" and ps = True and fc = 1 and lft = 500]
      due order t
    by simp
qed


section \<open>Properties of the behavioral memory\<close>

lemma allSame_iff:
  "ks \<noteq> [] \<Longrightarrow> list_all (\<lambda>k. k = hd ks) ks = (\<exists>k. \<forall>x \<in> set ks. x = k)"
  by (cases ks) (auto simp: list_all_iff)

lemma detect_iff:
  "fst (detectStuckBehavior bi) =
     (stuckDetectionThreshold \<le> length (actionMemory bi)
      \<and> (\<exists>k. \<forall>e \<in> set (sliceLast stuckDetectionThreshold (actionMemory bi)). key e = k))"
proof (cases "stuckDetectionThreshold \<le> length (actionMemory bi)")
  case False
  then show ?thesis
    by (simp add: detectStuckBehavior_def sliceLast_def stuckDetectionThreshold_def Let_def)
next
  case True
  let ?recent = "sliceLast stuckDetectionThreshold (actionMemory bi)"
  have len: "length ?recent = stuckDetectionThreshold"
    using True by (simp add: sliceLast_def stuckDetectionThreshold_def)
  then have ne: "map key ?recent \<noteq> []" by (auto simp: stuckDetectionThreshold_def)
  have "fst (detectStuckBehavior bi) = list_all (\<lambda>k. k = hd (map key ?recent)) (map key ?recent)"
    using len by (simp add: detectStuckBehavior_def behavioralOverrides_def Let_def)
  also have "\<dots> = (\<exists>k. \<forall>x \<in> set (map key ?recent). x = k)" by (rule allSame_iff[OF ne])
  finally show ?thesis using True by auto
qed

lemma drop_one_tl: "length es - d = Suc 0 \<Longrightarrow> drop (length es - d) es = tl es"
  by (simp add: drop_Suc)

lemma trim_append:
  assumes "length es \<le> Suc d"
  shows "drop (length (drop (length es - d) es) + length rest - d) (drop (length es - d) es @ rest)
       = drop (length es + length rest - d) (es @ rest)"
proof (cases "length es \<le> d")
  case True
  then show ?thesis by simp
next
  case False
  with assms have l: "length es = Suc d" by simp
  then have ne: "es \<noteq> []" by auto
  have k: "drop (length es - d) es = tl es" using l by (simp add: drop_Suc)
  have "drop (length es + length rest - d) (es @ rest) = drop (Suc (length rest)) (es @ rest)"
    using l by simp
  also have "\<dots> = drop (length rest) (tl es @ rest)" using ne by (cases es) simp_all
  finally show ?thesis using l by (simp add: k)
qed

lemma update_memory:
  "actionMemory (updateActionMemory t a bi)
     = (if length (actionMemory bi @ [memoryEntryOf (t, a)]) > memoryDepth
        then tl (actionMemory bi @ [memoryEntryOf (t, a)])
        else actionMemory bi @ [memoryEntryOf (t, a)])"
  by (simp add: updateActionMemory_def Let_def memoryEntryOf_def)

lemma update_memory_drop:
  assumes "length (actionMemory bi) \<le> memoryDepth"
  shows "actionMemory (updateActionMemory t a bi)
     = drop (length (actionMemory bi @ [memoryEntryOf (t, a)]) - memoryDepth)
         (actionMemory bi @ [memoryEntryOf (t, a)])"
proof (cases "length (actionMemory bi @ [memoryEntryOf (t, a)]) > memoryDepth")
  case True
  with assms have "length (actionMemory bi @ [memoryEntryOf (t, a)]) - memoryDepth = Suc 0" by simp
  from drop_one_tl[OF this] True show ?thesis by (simp only: update_memory if_True)
next
  case False
  then show ?thesis by (simp only: update_memory) simp
qed

lemma recordAll_memory:
  "length (actionMemory bi) \<le> memoryDepth \<Longrightarrow>
   actionMemory (recordAll xs bi)
     = drop (length (actionMemory bi) + length xs - memoryDepth)
         (actionMemory bi @ map memoryEntryOf xs)"
proof (induction xs arbitrary: bi)
  case Nil
  then show ?case by (simp add: recordAll_def)
next
  case (Cons x xs)
  obtain t a where x: "x = (t, a)" by (cases x)
  let ?bi = "updateActionMemory t a bi"
  let ?es = "actionMemory bi @ [memoryEntryOf (t, a)]"
  have m: "actionMemory ?bi = drop (length ?es - memoryDepth) ?es"
    by (rule update_memory_drop[OF Cons.prems])
  have le: "length (actionMemory ?bi) \<le> memoryDepth" using Cons.prems by (simp add: m)
  have les: "length ?es \<le> Suc memoryDepth" using Cons.prems by simp
  have r: "recordAll ((t, a) # xs) bi = recordAll xs ?bi" by (simp add: recordAll_def)
  have "actionMemory (recordAll xs ?bi)
      = drop (length (actionMemory ?bi) + length (map memoryEntryOf xs) - memoryDepth)
          (actionMemory ?bi @ map memoryEntryOf xs)" using Cons.IH[OF le] by simp
  also have "\<dots> = drop (length ?es + length (map memoryEntryOf xs) - memoryDepth)
          (?es @ map memoryEntryOf xs)"
    unfolding m by (rule trim_append[OF les])
  finally show ?case by (simp add: r x)
qed

lemma recorded_recent:
  assumes "stuckDetectionThreshold \<le> length xs"
  shows "sliceLast stuckDetectionThreshold (actionMemory (recordAll xs initialIntelligence))
      = map memoryEntryOf (sliceLast stuckDetectionThreshold xs)"
proof -
  have m: "actionMemory (recordAll xs initialIntelligence)
      = drop (length xs - memoryDepth) (map memoryEntryOf xs)"
    using recordAll_memory[of initialIntelligence xs] by (simp add: initialIntelligence_def)
  show ?thesis
    using assms
    by (simp add: m sliceLast_def stuckDetectionThreshold_def memoryDepth_def drop_map)
qed

lemma recorded_length:
  "(stuckDetectionThreshold \<le> length (actionMemory (recordAll xs initialIntelligence)))
     = (stuckDetectionThreshold \<le> length xs)"
proof -
  have m: "actionMemory (recordAll xs initialIntelligence)
      = drop (length xs - memoryDepth) (map memoryEntryOf xs)"
    using recordAll_memory[of initialIntelligence xs] by (simp add: initialIntelligence_def)
  show ?thesis by (auto simp: m stuckDetectionThreshold_def memoryDepth_def)
qed

lemma detect_recorded:
  "fst (detectStuckBehavior (recordAll xs initialIntelligence)) =
     (stuckDetectionThreshold \<le> length xs
      \<and> (\<exists>k. \<forall>x \<in> set (sliceLast stuckDetectionThreshold xs). actionKey (snd x) = k))"
proof (cases "stuckDetectionThreshold \<le> length xs")
  case True
  show ?thesis
    using True
    by (simp add: detect_iff recorded_length recorded_recent[OF True] memoryEntryOf_def)
next
  case False
  then show ?thesis by (simp add: detect_iff recorded_length)
qed

text \<open>
  The stuck check reads the last \<open>N\<close> entries of the memory and nothing else: whatever
  the entries before them, it is true exactly when those \<open>N\<close> carry the key of the
  first of them.
\<close>

lemma detect_window:
  assumes "length recent = stuckDetectionThreshold"
  shows "fst (detectStuckBehavior (bi\<lparr>actionMemory := older @ recent\<rparr>))
     = (\<forall>e \<in> set recent. key e = key (hd recent))"
proof -
  have s: "sliceLast stuckDetectionThreshold (older @ recent) = recent"
    using assms by (simp add: sliceLast_def stuckDetectionThreshold_def)
  have ne: "recent \<noteq> []" using assms by (auto simp: stuckDetectionThreshold_def)
  have "fst (detectStuckBehavior (bi\<lparr>actionMemory := older @ recent\<rparr>))
     = list_all (\<lambda>k. k = hd (map key recent)) (map key recent)"
    by (simp add: detectStuckBehavior_def behavioralOverrides_def Let_def s assms)
  also have "\<dots> = (\<forall>e \<in> set recent. key e = key (hd recent))"
    using ne by (simp add: list_all_iff hd_map)
  finally show ?thesis .
qed

lemma detect_window_examples:
  "fst (detectStuckBehavior (initialIntelligence\<lparr>actionMemory :=
      [\<lparr>key = ''a'', timestamp = 1, recorded = gotoAction\<rparr>,
       \<lparr>key = ''b'', timestamp = 2, recorded = gotoAction\<rparr>,
       \<lparr>key = ''b'', timestamp = 3, recorded = gotoAction\<rparr>,
       \<lparr>key = ''b'', timestamp = 4, recorded = gotoAction\<rparr>]\<rparr>))
   \<and> \<not> fst (detectStuckBehavior (initialIntelligence\<lparr>actionMemory :=
      [\<lparr>key = ''b'', timestamp = 1, recorded = gotoAction\<rparr>,
       \<lparr>key = ''b'', timestamp = 2, recorded = gotoAction\<rparr>,
       \<lparr>key = ''b'', timestamp = 3, recorded = gotoAction\<rparr>,
       \<lparr>key = ''a'', timestamp = 4, recorded = gotoAction\<rparr>]\<rparr>))
   \<and> \<not> fst (detectStuckBehavior mixedMemory)"
  by code_simp

text \<open>
  Claim C6. The code diverges from the claim. \<^verbatim>\<open>updateActionMemory\<close> builds the
  signature of an action from \<^verbatim>\<open>action.type\<close> and \<^verbatim>\<open>action.parameters\<close>, two properties
  that no action object has (an action carries \<^verbatim>\<open>action\<close> and \<^verbatim>\<open>args\<close>), so that the
  signature it records is \<^verbatim>\<open>undefined_{}\<close> for every action. The stuck check, which
  compares the last \<open>N\<close> recorded signatures, is therefore true as soon as \<open>N\<close> actions
  have been recorded, whatever they are: after a \<^verbatim>\<open>MOVE\<close>, a \<^verbatim>\<open>GOTO\<close> and an \<^verbatim>\<open>EAT\<close>, three
  actions of three kinds, the three recorded signatures are the same string and the
  check returns true.
\<close>

theorem stuck_on_different_actions:
  "fst (detectStuckBehavior (recordAll xs initialIntelligence))
     = (stuckDetectionThreshold \<le> length xs)
   \<and> actionKey a = ''undefined_{}''
   \<and> map (action \<circ> recorded)
        (actionMemory (recordAll [(1, moveAction), (2, gotoAction), (3, eatAction)]
           initialIntelligence))
       = [''MOVE'', ''GOTO'', ''EAT'']
   \<and> map key
        (actionMemory (recordAll [(1, moveAction), (2, gotoAction), (3, eatAction)]
           initialIntelligence))
       = [''undefined_{}'', ''undefined_{}'', ''undefined_{}'']
   \<and> fst (detectStuckBehavior
        (recordAll [(1, moveAction), (2, gotoAction), (3, eatAction)] initialIntelligence))"
proof -
  have k: "actionKey a = ''undefined_{}''" for a by (simp add: actionKey_def)
  have "fst (detectStuckBehavior (recordAll xs initialIntelligence))
     = (stuckDetectionThreshold \<le> length xs)"
    by (simp add: detect_recorded k)
  moreover have "map (action \<circ> recorded)
        (actionMemory (recordAll [(1, moveAction), (2, gotoAction), (3, eatAction)]
           initialIntelligence))
       = [''MOVE'', ''GOTO'', ''EAT'']" by code_simp
  moreover have "map key
        (actionMemory (recordAll [(1, moveAction), (2, gotoAction), (3, eatAction)]
           initialIntelligence))
       = [''undefined_{}'', ''undefined_{}'', ''undefined_{}'']" by code_simp
  moreover have "fst (detectStuckBehavior
        (recordAll [(1, moveAction), (2, gotoAction), (3, eatAction)] initialIntelligence))"
    by code_simp
  ultimately show ?thesis using k by simp
qed



lemma resetStuck_fields:
  "\<not> isStuck (behaviorFlags (resetStuck now ex bi))
   \<and> (\<forall>k. consecutiveActions (resetStuck now ex bi) k \<in> {None, Some 0})"
  by (auto simp: resetStuck_def map_option_case split: option.splits)

lemma override_resets:
  "fst (getIntelligentOverride b now bi) \<noteq> None \<Longrightarrow>
   \<not> isStuck (behaviorFlags (snd (getIntelligentOverride b now bi)))
   \<and> (\<forall>k. consecutiveActions (snd (getIntelligentOverride b now bi)) k \<in> {None, Some 0})"
  using resetStuck_fields[of now True bi] resetStuck_fields[of now False bi]
  by (auto simp: getIntelligentOverride_def Let_def split: if_splits list.splits prod.splits)




lemma zero_not_counted: "m k \<in> {None, Some 0} \<Longrightarrow> \<not> nonZeroCount m k"
  by (auto simp: nonZeroCount_def)

lemma update_counts:
  "consecutiveActions (updateActionMemory now a bi) k =
     (if k = actionKey a
      then Some ((case consecutiveActions bi (actionKey a) of None \<Rightarrow> 0 | Some n \<Rightarrow> n) + 1)
      else map_option (\<lambda>n. 0) (consecutiveActions bi k))"
  by (simp add: updateActionMemory_def Let_def)

lemma update_exactly_one:
  "exactlyOneNonZero (consecutiveActions (updateActionMemory now a bi))"
  unfolding exactlyOneNonZero_def
proof (rule ex1I[of _ "actionKey a"])
  show "nonZeroCount (consecutiveActions (updateActionMemory now a bi)) (actionKey a)"
    by (simp add: nonZeroCount_def update_counts)
next
  fix k
  assume "nonZeroCount (consecutiveActions (updateActionMemory now a bi)) k"
  then show "k = actionKey a"
    by (cases "k = actionKey a") (auto simp: nonZeroCount_def update_counts split: option.splits)
qed

lemma cycleBegin_records:
  "fst (cycleBegin b now s) = Execute a \<Longrightarrow>
   \<exists>bi. botIntelligence (snd (cycleBegin b now s))
          = (updateActionMemory now a bi)\<lparr>lastLLMDecision := Some a\<rparr>"
  by (auto simp: cycleBegin_def Let_def split: if_splits prod.splits option.splits)

lemma cycleResume_records:
  "fst (cycleResume p now s) = Some a \<Longrightarrow>
   \<exists>bi. botIntelligence (snd (cycleResume p now s))
          = (updateActionMemory now a bi)\<lparr>lastLLMDecision := Some a\<rparr>"
  by (auto simp: cycleResume_def split: if_splits policy.splits)

lemma decide_records:
  "fst (decide b p now s) = Some a \<Longrightarrow>
   \<exists>bi. botIntelligence (snd (decide b p now s))
          = (updateActionMemory now a bi)\<lparr>lastLLMDecision := Some a\<rparr>"
proof (cases "cycleBegin b now s")
  case (Pair st s')
  assume d: "fst (decide b p now s) = Some a"
  show ?thesis
  proof (cases st)
    case ReturnFalse
    with Pair d show ?thesis by (simp add: decide_def)
  next
    case (Execute x)
    with Pair d have "fst (cycleBegin b now s) = Execute a" "snd (decide b p now s) = snd (cycleBegin b now s)"
      by (simp_all add: decide_def)
    with cycleBegin_records[of b now s a] show ?thesis by simp
  next
    case AwaitPolicy
    with Pair d have "fst (cycleResume p now s') = Some a" "snd (decide b p now s) = snd (cycleResume p now s')"
      by (simp_all add: decide_def)
    with cycleResume_records[of p now s' a] show ?thesis by simp
  qed
qed

text \<open>
  Claim C4, as stated, fails on the override path: after the three recordings one
  signature has the count 3; the override then returns an action and leaves no
  signature with a non-zero count.
\<close>

theorem counts_counterexample:
  "nonZeroCount (consecutiveActions threeGotos) ''undefined_{}''
   \<and> fst (getIntelligentOverride calmBot 4 (snd (detectStuckBehavior threeGotos))) \<noteq> None
   \<and> \<not> exactlyOneNonZero
         (consecutiveActions (snd (getIntelligentOverride calmBot 4 (snd (detectStuckBehavior threeGotos)))))"
proof -
  have a: "nonZeroCount (consecutiveActions threeGotos) ''undefined_{}''" by code_simp
  have b: "fst (getIntelligentOverride calmBot 4 (snd (detectStuckBehavior threeGotos))) \<noteq> None"
    by code_simp
  from override_resets[OF b]
  have "\<forall>k. \<not> nonZeroCount
      (consecutiveActions (snd (getIntelligentOverride calmBot 4 (snd (detectStuckBehavior threeGotos))))) k"
    using zero_not_counted by blast
  then have "\<not> exactlyOneNonZero
         (consecutiveActions (snd (getIntelligentOverride calmBot 4 (snd (detectStuckBehavior threeGotos)))))"
    by (auto simp: exactlyOneNonZero_def)
  with a b show ?thesis by simp
qed

text \<open>
  Claim C4, amended. After every recording exactly one signature has a non-zero count:
  the recorded signature, whose count is one more than before, while every other count
  is 0. The override, when it returns an action, sets every count to 0, so that no
  count is non-zero; when it returns none it changes nothing. The stuck check does not
  change the counts. A decision cycle that chooses an action, from the override or
  from the policy source, records it before executing it, so that exactly one count is
  non-zero when the cycle calls the executor: this holds of the cycle as a whole and of
  each of its two parts, the one that ends with the override and the one that runs
  when the answer of the policy source has arrived.
\<close>

theorem counts_after_operations:
  "exactlyOneNonZero (consecutiveActions (updateActionMemory now a bi))
   \<and> consecutiveActions (updateActionMemory now a bi) (actionKey a)
       = Some ((case consecutiveActions bi (actionKey a) of None \<Rightarrow> 0 | Some n \<Rightarrow> n) + 1)
   \<and> (\<forall>k. k \<noteq> actionKey a \<longrightarrow>
         \<not> nonZeroCount (consecutiveActions (updateActionMemory now a bi)) k)
   \<and> (fst (getIntelligentOverride b now bi) \<noteq> None \<longrightarrow>
         (\<forall>k. \<not> nonZeroCount (consecutiveActions (snd (getIntelligentOverride b now bi))) k))
   \<and> (fst (getIntelligentOverride b now bi) = None \<longrightarrow>
         snd (getIntelligentOverride b now bi) = bi)
   \<and> consecutiveActions (snd (detectStuckBehavior bi)) = consecutiveActions bi
   \<and> (fst (decide b p now s) \<noteq> None \<longrightarrow>
         exactlyOneNonZero (consecutiveActions (botIntelligence (snd (decide b p now s)))))
   \<and> (fst (cycleBegin b now s) = Execute x \<longrightarrow>
         exactlyOneNonZero (consecutiveActions (botIntelligence (snd (cycleBegin b now s)))))
   \<and> (fst (cycleResume p now s) = Some x \<longrightarrow>
         exactlyOneNonZero (consecutiveActions (botIntelligence (snd (cycleResume p now s)))))"
proof -
  have others: "\<forall>k. k \<noteq> actionKey a \<longrightarrow>
         \<not> nonZeroCount (consecutiveActions (updateActionMemory now a bi)) k"
    by (auto simp: nonZeroCount_def update_counts split: option.splits)
  have reset: "fst (getIntelligentOverride b now bi) \<noteq> None \<longrightarrow>
         (\<forall>k. \<not> nonZeroCount (consecutiveActions (snd (getIntelligentOverride b now bi))) k)"
  proof
    assume "fst (getIntelligentOverride b now bi) \<noteq> None"
    from override_resets[OF this]
    have "\<forall>k. consecutiveActions (snd (getIntelligentOverride b now bi)) k \<in> {None, Some 0}"
      by simp
    then show "\<forall>k. \<not> nonZeroCount (consecutiveActions (snd (getIntelligentOverride b now bi))) k"
      using zero_not_counted by blast
  qed
  have idle: "fst (getIntelligentOverride b now bi) = None \<longrightarrow>
         snd (getIntelligentOverride b now bi) = bi"
    by (auto simp: getIntelligentOverride_def Let_def split: if_splits list.splits prod.splits)
  have det: "consecutiveActions (snd (detectStuckBehavior bi)) = consecutiveActions bi"
    by (simp add: detectStuckBehavior_def Let_def)
  have cyc: "fst (decide b p now s) \<noteq> None \<longrightarrow>
         exactlyOneNonZero (consecutiveActions (botIntelligence (snd (decide b p now s))))"
  proof
    assume "fst (decide b p now s) \<noteq> None"
    then obtain x where "fst (decide b p now s) = Some x" by auto
    from decide_records[OF this] obtain bi' where
      "botIntelligence (snd (decide b p now s)) = (updateActionMemory now x bi')\<lparr>lastLLMDecision := Some x\<rparr>"
      by auto
    then show "exactlyOneNonZero (consecutiveActions (botIntelligence (snd (decide b p now s))))"
      using update_exactly_one[of now x bi'] by simp
  qed
  have first: "fst (cycleBegin b now s) = Execute x \<longrightarrow>
         exactlyOneNonZero (consecutiveActions (botIntelligence (snd (cycleBegin b now s))))"
  proof
    assume "fst (cycleBegin b now s) = Execute x"
    from cycleBegin_records[OF this] obtain bi' where
      "botIntelligence (snd (cycleBegin b now s))
         = (updateActionMemory now x bi')\<lparr>lastLLMDecision := Some x\<rparr>"
      by auto
    then show "exactlyOneNonZero (consecutiveActions (botIntelligence (snd (cycleBegin b now s))))"
      using update_exactly_one[of now x bi'] by simp
  qed
  have second: "fst (cycleResume p now s) = Some x \<longrightarrow>
         exactlyOneNonZero (consecutiveActions (botIntelligence (snd (cycleResume p now s))))"
  proof
    assume "fst (cycleResume p now s) = Some x"
    from cycleResume_records[OF this] obtain bi' where
      "botIntelligence (snd (cycleResume p now s))
         = (updateActionMemory now x bi')\<lparr>lastLLMDecision := Some x\<rparr>"
      by auto
    then show "exactlyOneNonZero (consecutiveActions (botIntelligence (snd (cycleResume p now s))))"
      using update_exactly_one[of now x bi'] by simp
  qed
  show ?thesis
    using update_exactly_one[of now a bi] others reset idle det cyc first second
    by (simp add: update_counts)
qed

theorem counts_after_operations_witness:
  "exactlyOneNonZero (consecutiveActions (updateActionMemory 4 gotoAction threeGotos))
   \<and> consecutiveActions (updateActionMemory 4 gotoAction threeGotos) (actionKey gotoAction) = Some 4
   \<and> fst (getIntelligentOverride calmBot 4 (snd (detectStuckBehavior threeGotos))) \<noteq> None
   \<and> \<not> nonZeroCount
         (consecutiveActions (snd (getIntelligentOverride calmBot 4 (snd (detectStuckBehavior threeGotos)))))
         ''undefined_{}''
   \<and> fst (getIntelligentOverride calmBot 4 threeGotos) = None
   \<and> snd (getIntelligentOverride calmBot 4 threeGotos) = threeGotos
   \<and> fst (decide calmBot NoDecision 4 stuckEngine) \<noteq> None
   \<and> exactlyOneNonZero (consecutiveActions (botIntelligence (snd (decide calmBot NoDecision 4 stuckEngine))))
   \<and> fst (cycleBegin calmBot 4 stuckEngine) = Execute (explorationAction calmBot)
   \<and> exactlyOneNonZero (consecutiveActions (botIntelligence (snd (cycleBegin calmBot 4 stuckEngine))))
   \<and> fst (cycleResume (Proposal validGoto) 4 initialEngine) = Some (asAction validGoto)
   \<and> exactlyOneNonZero
         (consecutiveActions (botIntelligence (snd (cycleResume (Proposal validGoto) 4 initialEngine))))"
proof -
  have c: "consecutiveActions threeGotos (actionKey gotoAction) = Some 3" by code_simp
  have o: "fst (getIntelligentOverride calmBot 4 (snd (detectStuckBehavior threeGotos))) \<noteq> None"
    by code_simp
  have n: "fst (getIntelligentOverride calmBot 4 threeGotos) = None" by code_simp
  have d: "fst (decide calmBot NoDecision 4 stuckEngine) \<noteq> None" by code_simp
  have f: "fst (cycleBegin calmBot 4 stuckEngine) = Execute (explorationAction calmBot)"
    by code_simp
  have r: "fst (cycleResume (Proposal validGoto) 4 initialEngine) = Some (asAction validGoto)"
    by code_simp
  show ?thesis
    using counts_after_operations[of 4 gotoAction threeGotos calmBot NoDecision stuckEngine
        "explorationAction calmBot"]
      counts_after_operations[of 4 gotoAction "snd (detectStuckBehavior threeGotos)" calmBot
        NoDecision stuckEngine "explorationAction calmBot"]
      counts_after_operations[of 4 gotoAction threeGotos calmBot "Proposal validGoto"
        initialEngine "asAction validGoto"]
      c o n d f r
    by simp
qed

section \<open>Properties of the executor and of the decision cycle\<close>



lemma doAction_end_keeps:
  assumes "failure (runHandler w (action (normalized a))
              (case args (normalized a) of None \<Rightarrow> [] | Some m \<Rightarrow> m)) = Some NullOrUndefined"
  shows "fst (doAction_end w finished a s) = Threw typeError
    \<and> currentAction (snd (doAction_end w finished a s)) = currentAction s
    \<and> actionStartTime (snd (doAction_end w finished a s)) = actionStartTime s
    \<and> actionHistory (snd (doAction_end w finished a s)) = actionHistory s"
  using assms by (simp add: doAction_end_def Let_def)









lemma decide_reachable:
  "engineReachable s \<Longrightarrow> engineReachable (snd (decide b p now s))"
proof (cases "cycleBegin b now s")
  case (Pair st s')
  assume r: "engineReachable s"
  from e_begin[OF r, of b now] Pair have r': "engineReachable s'" by simp
  show ?thesis
    using Pair r' e_resume[OF r', of p now] by (cases st) (simp_all add: decide_def)
qed

lemma doAction_reachable:
  "engineReachable s \<Longrightarrow> engineReachable (snd (doAction w started finished a s))"
  by (simp add: doAction_def e_call e_return)

lemma executeLLMDecision_reachable:
  "engineReachable s \<Longrightarrow>
   engineReachable (snd (executeLLMDecision b p w now started finished s))"
proof (cases "decide b p now s")
  case (Pair x s')
  assume r: "engineReachable s"
  from decide_reachable[OF r, of b p now] Pair have r': "engineReachable s'" by simp
  show ?thesis
  proof (cases x)
    case None
    with Pair r' show ?thesis by (simp add: executeLLMDecision_def)
  next
    case (Some a)
    from doAction_reachable[OF r', of w started finished a]
    show ?thesis
      using Pair Some
      by (cases "doAction w started finished a s'")
         (auto simp: executeLLMDecision_def split: outcome.splits)
  qed
qed

text \<open>
  The stuck flag is false in every state of the engine: only the stuck check sets it,
  only the first part of a cycle runs the stuck check, and there the override follows
  at once and, the flag being set, returns an action and clears the flag.
\<close>

lemma override_needs_flag:
  "\<not> isStuck (behaviorFlags bi) \<Longrightarrow> getIntelligentOverride b now bi = (None, bi)"
  by (simp add: getIntelligentOverride_def)

lemma override_clears_flag:
  "\<not> isStuck (behaviorFlags (snd (getIntelligentOverride b now bi)))"
  using resetStuck_fields[of now True bi] resetStuck_fields[of now False bi]
  by (auto simp: getIntelligentOverride_def Let_def proactiveActions_def behavioralOverrides_def
      split: if_splits list.splits prod.splits)

lemma record_flags:
  "behaviorFlags ((updateActionMemory now a bi)\<lparr>lastLLMDecision := d\<rparr>) = behaviorFlags bi"
  by (simp add: updateActionMemory_def Let_def)

lemma cycleBegin_flag:
  assumes "\<not> isStuck (behaviorFlags (botIntelligence s))"
  shows "\<not> isStuck (behaviorFlags (botIntelligence (snd (cycleBegin b now s))))"
proof -
  let ?bi2 = "snd (detectStuckBehavior (updatePositionTracking b now (botIntelligence s)))"
  have c: "\<not> isStuck (behaviorFlags (snd (getIntelligentOverride b now ?bi2)))"
    by (rule override_clears_flag)
  show ?thesis
    using assms c
    by (auto simp: cycleBegin_def Let_def record_flags split: prod.splits option.splits)
qed

lemma reachable_flag:
  "engineReachable s \<Longrightarrow> \<not> isStuck (behaviorFlags (botIntelligence s))"
proof (induction rule: engineReachable.induct)
  case e_initial
  show ?case by (simp add: initialEngine_def initialIntelligence_def)
next
  case (e_begin s b now)
  from e_begin.IH show ?case by (rule cycleBegin_flag)
next
  case (e_resume s p now)
  then show ?case by (simp add: cycleResume_def record_flags split: policy.splits)
next
  case (e_call s started a)
  then show ?case by (simp add: doAction_begin_def)
next
  case (e_return s w finished a)
  let ?r = "runHandler w (action (normalized a))
              (case args (normalized a) of None \<Rightarrow> [] | Some m \<Rightarrow> m)"
  show ?case
    using e_return.IH
    by (cases "failure ?r")
       (auto simp: doAction_end_def Let_def addToActionHistory_def split: error.splits)
next
  case (e_auto s t)
  then show ?case by simp
qed

lemma detect_tracked:
  "fst (detectStuckBehavior (updatePositionTracking b now bi)) = fst (detectStuckBehavior bi)"
  by (simp add: detectStuckBehavior_def updatePositionTracking_def Let_def)

lemma detect_false:
  "\<not> fst (detectStuckBehavior bi) \<Longrightarrow> snd (detectStuckBehavior bi) = bi"
  by (auto simp: detectStuckBehavior_def Let_def split: if_splits)

text \<open>
  Claim C9. In every state of the engine in which the stuck check returns false, the
  override called after it returns no action and changes nothing, so that the cycle
  that runs the two does not execute an override: it returns false or goes on to the
  policy source. The state is any state that the cycles and the calls of \<^verbatim>\<open>doAction\<close>
  lead to from the initial one, in any order. The stuck flag, which the override reads,
  is false in all of them, and the stuck check that returns false leaves it so; the
  position tracking that the cycle runs first does not change the result of the check.
\<close>

theorem no_override_unless_stuck:
  assumes "engineReachable s"
    and "\<not> fst (detectStuckBehavior (botIntelligence s))"
  shows "getIntelligentOverride b now (snd (detectStuckBehavior (botIntelligence s)))
       = (None, botIntelligence s)
    \<and> \<not> fst (detectStuckBehavior (updatePositionTracking b now (botIntelligence s)))
    \<and> fst (getIntelligentOverride b now
         (snd (detectStuckBehavior (updatePositionTracking b now (botIntelligence s))))) = None
    \<and> fst (cycleBegin b now s) \<noteq> Execute a
    \<and> \<not> isStuck (behaviorFlags (botIntelligence s))"
proof -
  let ?bi = "botIntelligence s"
  let ?t = "updatePositionTracking b now ?bi"
  have flag: "\<not> isStuck (behaviorFlags ?bi)" using assms(1) by (rule reachable_flag)
  have same: "snd (detectStuckBehavior ?bi) = ?bi" using assms(2) by (rule detect_false)
  have one: "getIntelligentOverride b now (snd (detectStuckBehavior ?bi)) = (None, ?bi)"
    using override_needs_flag[OF flag, of b now] same by simp
  have nt: "\<not> fst (detectStuckBehavior ?t)" using assms(2) by (simp add: detect_tracked)
  have tflag: "\<not> isStuck (behaviorFlags ?t)"
    using flag by (simp add: updatePositionTracking_def Let_def)
  have two: "getIntelligentOverride b now (snd (detectStuckBehavior ?t)) = (None, ?t)"
    using override_needs_flag[OF tflag, of b now] detect_false[OF nt] by simp
  have three: "fst (cycleBegin b now s) \<noteq> Execute a"
    using two by (auto simp: cycleBegin_def Let_def split: prod.splits option.splits)
  show ?thesis using one nt two three flag by simp
qed

theorem no_override_unless_stuck_witness:
  "engineReachable afterMoveAndGoto
   \<and> map (action \<circ> recorded) (actionMemory (botIntelligence afterMoveAndGoto))
       = [''MOVE'', ''GOTO'']
   \<and> \<not> fst (detectStuckBehavior (botIntelligence afterMoveAndGoto))
   \<and> fst (getIntelligentOverride treeBot 30
        (snd (detectStuckBehavior (botIntelligence afterMoveAndGoto)))) = None
   \<and> fst (cycleBegin treeBot 30 afterMoveAndGoto) = AwaitPolicy"
proof -
  have r: "engineReachable afterMoveAndGoto"
    unfolding afterMoveAndGoto_def afterMove_def
    by (intro executeLLMDecision_reachable e_initial)
  have m: "map (action \<circ> recorded) (actionMemory (botIntelligence afterMoveAndGoto))
       = [''MOVE'', ''GOTO'']" by code_simp
  have d: "\<not> fst (detectStuckBehavior (botIntelligence afterMoveAndGoto))" by code_simp
  have c: "fst (cycleBegin treeBot 30 afterMoveAndGoto) = AwaitPolicy" by code_simp
  show ?thesis
    using no_override_unless_stuck[OF r d, of treeBot 30] r m d c by simp
qed

text \<open>
  When, on the other hand, three actions have been recorded, the stuck check returns
  true and the cycle executes an override.
\<close>

lemma override_after_three:
  "engineReachable afterThreeGotos
   \<and> fst (detectStuckBehavior (botIntelligence afterThreeGotos))
   \<and> fst (cycleBegin calmBot 40 afterThreeGotos) = Execute (explorationAction calmBot)"
proof -
  have r: "engineReachable afterThreeGotos"
    unfolding afterThreeGotos_def by (intro executeLLMDecision_reachable e_initial)
  moreover have "fst (detectStuckBehavior (botIntelligence afterThreeGotos))" by code_simp
  moreover have "fst (cycleBegin calmBot 40 afterThreeGotos) = Execute (explorationAction calmBot)"
    by code_simp
  ultimately show ?thesis by simp
qed




text \<open>
  Claim C10. The schema does not constrain the parameter bag: the value
  \<^verbatim>\<open>{"action":"GOTO","args":{}}\<close> passes \<^verbatim>\<open>validateAction\<close>, and \<^verbatim>\<open>doAction\<close> on it
  throws \<^verbatim>\<open>GOTO requires x,y,z\<close>, whatever the Actuator and the state.
\<close>

theorem schema_admits_failing_action:
  "validateAction gotoWithoutTarget
   \<and> fst (doAction w started finished (asAction gotoWithoutTarget) s)
       = Threw (Error ''GOTO requires x,y,z'')"
  by (simp add: gotoWithoutTarget_def validateAction_def actionEnum_def asAction_def
      doAction_def doAction_begin_def doAction_end_def normalized_def
      runHandler_def someNotNumber_def isNumber_def Let_def)

end
